theory Spec2Isabelle
  imports Complex_Main
begin

section \<open>Strings as Python sees them\<close>

text \<open>
  A Python \<open>str\<close> is modelled as a \<open>string\<close> whose characters are the code points
  below 256.  Python's floats appear twice.  For the raw score that the scoring loop stores,
  they are IEEE doubles, every operation rounded (section on the raw score in doubles).  In
  \<open>analyze_task\<close> and what is built on it they are exact rationals: what is proved there is
  about the sign and the order of the scores, about the values 0 and 1, and about quotients
  \<open>v / max\<close> with \<open>0 \<le> v \<le> max\<close>.
\<close>

definition lower_char :: "char \<Rightarrow> char" where
  \<comment> \<open>\<open>str.lower\<close> on one code point below 256: A-Z, and the Latin-1 capitals except the
      multiplication sign.\<close>
  "lower_char c =
     (let n = (of_char c :: nat)
      in if (65 \<le> n \<and> n \<le> 90) \<or> (192 \<le> n \<and> n \<le> 222 \<and> n \<noteq> 215)
         then char_of (n + 32) else c)"

definition lower :: "string \<Rightarrow> string" where
  "lower s = map lower_char s"

definition isspace :: "char \<Rightarrow> bool" where
  \<comment> \<open>the code points below 256 that \<open>str.strip()\<close> removes\<close>
  "isspace c =
     (let n = (of_char c :: nat)
      in (9 \<le> n \<and> n \<le> 13) \<or> (28 \<le> n \<and> n \<le> 32) \<or> n = 133 \<or> n = 160)"

definition strip :: "string \<Rightarrow> string" where
  "strip s = rev (dropWhile isspace (rev (dropWhile isspace s)))"

fun startswith :: "string \<Rightarrow> string \<Rightarrow> bool" where
  \<comment> \<open>\<open>startswith s kw\<close>: \<open>kw\<close> is a prefix of \<open>s\<close>\<close>
  "startswith s [] = True"
| "startswith [] (k # ks) = False"
| "startswith (c # cs) (k # ks) = (c = k \<and> startswith cs ks)"

fun str_in :: "string \<Rightarrow> string \<Rightarrow> bool" where
  \<comment> \<open>\<open>str_in kw s\<close> is Python's \<open>kw in s\<close>: \<open>kw\<close> occurs in \<open>s\<close> as a contiguous substring\<close>
  "str_in kw [] = (kw = [])"
| "str_in kw (c # cs) = (startswith (c # cs) kw \<or> str_in kw cs)"

section \<open>agent\_selector.py\<close>

text \<open>The field \<open>keywords\<close> is named \<open>keyword_list\<close>: \<open>keywords\<close> is reserved in Isabelle.\<close>

record AgentCapability =
  name :: string
  keyword_list :: "string list"
  description :: string
  priority_score :: int

text \<open>
  \<open>self.agents\<close> is a dict; it is modelled as the list of its items in insertion order,
  which is the order in which Python iterates it.
\<close>

type_synonym AgentSelector = "(string \<times> AgentCapability) list"

definition manus_capability :: AgentCapability where
  "manus_capability = \<lparr>
     name = ''manus'',
     keyword_list = [
       ''general'', ''help'', ''assist'', ''explain'', ''overview'', ''summary'',
       ''guide'', ''tutorial'', ''basic'', ''simple'', ''question'', ''what'',
       ''how'', ''why'', ''tell me'', ''describe'', ''general purpose''],
     description = ''General-purpose AI agent for basic tasks and explanations'',
     priority_score = 1 \<rparr>"

definition browser_capability :: AgentCapability where
  "browser_capability = \<lparr>
     name = ''browser'',
     keyword_list = [
       ''website'', ''web'', ''scrape'', ''scraping'', ''crawl'', ''extract'',
       ''browser'', ''navigate'', ''click'', ''form'', ''automation'',
       ''selenium'', ''url'', ''link'', ''page'', ''html'', ''css'', ''xpath'',
       ''download'', ''upload'', ''login'', ''submit'', ''search online'',
       ''visit'', ''open'', ''browse'', ''internet'', ''online''],
     description = ''Web automation and scraping specialist'',
     priority_score = 3 \<rparr>"

definition data_capability :: AgentCapability where
  "data_capability = \<lparr>
     name = ''data'',
     keyword_list = [
       ''data'', ''analyze'', ''analysis'', ''statistics'', ''chart'', ''graph'',
       ''visualization'', ''plot'', ''pandas'', ''numpy'', ''csv'', ''excel'',
       ''database'', ''sql'', ''query'', ''report'', ''insights'', ''trends'',
       ''correlation'', ''regression'', ''machine learning'', ''ml'',
       ''dataset'', ''dataframe'', ''pivot'', ''aggregate'', ''clean'',
       ''process'', ''transform'', ''filter'', ''sort'', ''group''],
     description = ''Data analysis and visualization expert'',
     priority_score = 3 \<rparr>"

definition swe_capability :: AgentCapability where
  "swe_capability = \<lparr>
     name = ''swe'',
     keyword_list = [
       ''code'', ''programming'', ''script'', ''function'', ''class'', ''module'',
       ''python'', ''javascript'', ''java'', ''c++'', ''development'', ''build'',
       ''create'', ''implement'', ''algorithm'', ''software'', ''application'',
       ''api'', ''framework'', ''library'', ''package'', ''install'', ''setup'',
       ''debug'', ''fix'', ''error'', ''bug'', ''test'', ''unit test'',
       ''refactor'', ''optimize'', ''performance'', ''architecture'',
       ''design pattern'', ''oop'', ''functional'', ''git'', ''version control''],
     description = ''Software engineering and development agent'',
     priority_score = 3 \<rparr>"

definition AgentSelector_init :: AgentSelector where
  \<comment> \<open>\<open>AgentSelector.__init__\<close>\<close>
  "AgentSelector_init =
     [(''manus'', manus_capability), (''browser'', browser_capability),
      (''data'', data_capability), (''swe'', swe_capability)]"

fun keyword_loop :: "string \<Rightarrow> string list \<Rightarrow> rat \<times> int \<Rightarrow> rat \<times> int" where
  \<comment> \<open>the inner \<open>for keyword in agent.keywords\<close> loop on the pair
      \<open>(score, keyword_matches)\<close>\<close>
  "keyword_loop task_lower [] (score, keyword_matches) = (score, keyword_matches)"
| "keyword_loop task_lower (keyword # rest) (score, keyword_matches) =
     (if str_in keyword task_lower
      then keyword_loop task_lower rest
             (if keyword = strip task_lower then score + 2 else score + 1, keyword_matches + 1)
      else keyword_loop task_lower rest (score, keyword_matches))"

definition agent_score :: "string \<Rightarrow> AgentCapability \<Rightarrow> rat" where
  \<comment> \<open>the body of the outer loop: the value stored in \<open>scores[agent_name]\<close>\<close>
  "agent_score task_lower agent =
     (case keyword_loop task_lower (keyword_list agent) (0, 0) of
        (score, keyword_matches) \<Rightarrow>
          (let score = score * of_int (priority_score agent)
           in if keyword_matches > 1
              then score * (1 + of_int (keyword_matches - 1) * (2 / 10))
              else score))"

definition raw_scores :: "AgentSelector \<Rightarrow> string \<Rightarrow> (string \<times> rat) list" where
  \<comment> \<open>the dict \<open>scores\<close> when the outer loop has finished, before normalisation\<close>
  "raw_scores self task_lower =
     map (\<lambda>(agent_name, agent). (agent_name, agent_score task_lower agent)) self"

fun max_values :: "rat list \<Rightarrow> rat" where
  \<comment> \<open>\<open>max(...)\<close> on a non-empty sequence of numbers; the caller tests for emptiness\<close>
  "max_values [] = 1"
| "max_values [v] = v"
| "max_values (v # w # vs) = max v (max_values (w # vs))"

definition analyze_task :: "AgentSelector \<Rightarrow> string \<Rightarrow> (string \<times> rat) list" where
  "analyze_task self task =
     (let task_lower = lower task;
          scores = raw_scores self task_lower;
          max_score = (if scores \<noteq> [] then max_values (map snd scores) else 1)
      in if max_score > 0
         then map (\<lambda>(k, v). (k, v / max_score)) scores
         else scores)"

datatype py_error =
    ValueError | KeyError | AttributeError | JSONDecodeError | WebSocketDisconnect | RuntimeError

fun max_by_value :: "(string \<times> rat) \<Rightarrow> (string \<times> rat) list \<Rightarrow> (string \<times> rat)" where
  \<comment> \<open>\<open>max(scores.keys(), key=lambda k: scores[k])\<close> on the items of the dict: the
      candidate is replaced only by a strictly greater value, so the first maximum wins\<close>
  "max_by_value best [] = best"
| "max_by_value best (kv # rest) =
     max_by_value (if snd kv > snd best then kv else best) rest"

definition select_best_agent ::
  "AgentSelector \<Rightarrow> string \<Rightarrow> rat \<Rightarrow> py_error + (string \<times> rat \<times> (string \<times> rat) list)" where
  "select_best_agent self task threshold =
     (let scores = analyze_task self task
      in case scores of
           [] \<Rightarrow> Inl ValueError
         | kv # rest \<Rightarrow>
             (let (best_agent, best_score) = max_by_value kv rest
              in if best_score < threshold
                 then Inr (''manus'', best_score, scores)
                 else Inr (best_agent, best_score, scores)))"

definition default_threshold :: rat where
  "default_threshold = 3 / 10"

definition sorted_reverse :: "(string \<times> rat) list \<Rightarrow> (string \<times> rat) list" where
  \<comment> \<open>\<open>sorted(items, key=lambda x: x[1], reverse=True)\<close>: Python's sort is stable, also
      with \<open>reverse=True\<close>, so it is the stable sort on the negated key\<close>
  "sorted_reverse items = sort_key (\<lambda>x. - snd x) items"

definition slice_to :: "int \<Rightarrow> 'a list \<Rightarrow> 'a list" where
  \<comment> \<open>\<open>xs[:n]\<close>; a negative \<open>n\<close> counts from the end\<close>
  "slice_to n xs =
     (if 0 \<le> n then take (nat n) xs else take (nat (int (length xs) + n)) xs)"

fun suggestions_loop ::
  "AgentSelector \<Rightarrow> (string \<times> rat) list \<Rightarrow> py_error + (string \<times> rat \<times> string) list" where
  \<comment> \<open>the loop that builds \<open>suggestions\<close>; \<open>self.agents[agent_name]\<close> raises KeyError
      on an unknown name\<close>
  "suggestions_loop self [] = Inr []"
| "suggestions_loop self ((agent_name, confidence) # rest) =
     (case map_of self agent_name of
        None \<Rightarrow> Inl KeyError
      | Some agent \<Rightarrow>
          (case suggestions_loop self rest of
             Inl e \<Rightarrow> Inl e
           | Inr suggestions \<Rightarrow> Inr ((agent_name, confidence, description agent) # suggestions)))"

definition get_agent_suggestions ::
  "AgentSelector \<Rightarrow> string \<Rightarrow> int \<Rightarrow> py_error + (string \<times> rat \<times> string) list" where
  "get_agent_suggestions self task top_n =
     (let scores = analyze_task self task;
          sorted_agents = sorted_reverse scores
      in suggestions_loop self (slice_to top_n sorted_agents))"

section \<open>The raw score in IEEE doubles\<close>

text \<open>
  A Python \<open>float\<close> is a binary64 number.  A finite double is modelled by the rational it
  denotes, and an operation by the exact operation followed by rounding to 53 significant
  bits, to nearest, ties to even.  The exponent range is not modelled (no overflow to
  infinity, no subnormals): with the shipped catalog a raw score is below \<open>2\<^sup>9\<close>.
\<close>

function bit_length :: "int \<Rightarrow> int" where
  \<comment> \<open>the number of binary digits of a positive integer\<close>
  "bit_length k = (if k \<le> 0 then 0 else 1 + bit_length (k div 2))"
  by pat_completeness auto
termination
  by (relation "measure nat") auto

definition two_pow :: "int \<Rightarrow> rat" where
  "two_pow e = (if 0 \<le> e then 2 ^ nat e else 1 / 2 ^ nat (- e))"

definition binary_exponent :: "rat \<Rightarrow> int" where
  \<comment> \<open>for \<open>x > 0\<close>, the \<open>e\<close> with \<open>2\<^sup>e \<le> x < 2\<^sup>e\<^sup>+\<^sup>1\<close>\<close>
  "binary_exponent x =
     (case quotient_of x of
        (p, q) \<Rightarrow>
          (let d = bit_length p - bit_length q
           in if two_pow d \<le> x then d else d - 1))"

definition round_half_even :: "rat \<Rightarrow> int" where
  "round_half_even m =
     (let f = \<lfloor>m\<rfloor>; r = m - of_int f
      in if r < 1 / 2 then f
         else if 1 / 2 < r then f + 1
         else if even f then f else f + 1)"

definition double_round :: "rat \<Rightarrow> rat" where
  "double_round x =
     (if x = 0 then 0
      else (let a = \<bar>x\<bar>;
                ulp = two_pow (binary_exponent a - 52)
            in sgn x * of_int (round_half_even (a / ulp)) * ulp))"

definition fadd :: "rat \<Rightarrow> rat \<Rightarrow> rat" where
  "fadd x y = double_round (x + y)"

definition fmul :: "rat \<Rightarrow> rat \<Rightarrow> rat" where
  "fmul x y = double_round (x * y)"

definition float_of_int :: "int \<Rightarrow> rat" where
  \<comment> \<open>the conversion of an \<open>int\<close> operand of a mixed operation\<close>
  "float_of_int n = double_round (of_int n)"

definition float_0_2 :: rat where
  \<comment> \<open>the literal \<open>0.2\<close>\<close>
  "float_0_2 = double_round (2 / 10)"

fun keyword_loop_double :: "string \<Rightarrow> string list \<Rightarrow> rat \<times> int \<Rightarrow> rat \<times> int" where
  \<comment> \<open>the inner loop, \<open>score += 2.0\<close> and \<open>score += 1.0\<close> as additions of doubles\<close>
  "keyword_loop_double task_lower [] (score, keyword_matches) = (score, keyword_matches)"
| "keyword_loop_double task_lower (keyword # rest) (score, keyword_matches) =
     (if str_in keyword task_lower
      then keyword_loop_double task_lower rest
             (if keyword = strip task_lower then fadd score 2 else fadd score 1,
              keyword_matches + 1)
      else keyword_loop_double task_lower rest (score, keyword_matches))"

definition agent_score_double :: "string \<Rightarrow> AgentCapability \<Rightarrow> rat" where
  \<comment> \<open>the body of the outer loop: \<open>score *= agent.priority_score\<close>, then
      \<open>score *= (1 + (keyword_matches - 1) * 0.2)\<close>, each operation rounded\<close>
  "agent_score_double task_lower agent =
     (case keyword_loop_double task_lower (keyword_list agent) (0, 0) of
        (score, keyword_matches) \<Rightarrow>
          (let score = fmul score (float_of_int (priority_score agent))
           in if keyword_matches > 1
              then fmul score (fadd (float_of_int 1) (fmul (float_of_int (keyword_matches - 1)) float_0_2))
              else score))"

definition raw_scores_double :: "AgentSelector \<Rightarrow> string \<Rightarrow> (string \<times> rat) list" where
  \<comment> \<open>the dict \<open>scores\<close> when the outer loop has finished, before normalisation\<close>
  "raw_scores_double self task_lower =
     map (\<lambda>(agent_name, agent). (agent_name, agent_score_double task_lower agent)) self"

section \<open>The scoring rule as the specification words it\<close>

definition spec_raw_score :: "string \<Rightarrow> AgentCapability \<Rightarrow> rat" where
  \<comment> \<open>the sum over the matching keywords, then times the weight, then times the bonus,
      each step a double operation\<close>
  "spec_raw_score task profile =
     (let task_lower = lower task;
          matched = filter (\<lambda>kw. str_in kw task_lower) (keyword_list profile);
          base = foldl fadd 0 (map (\<lambda>kw. if kw = strip task_lower then 2 else 1) matched);
          weighted = fmul base (float_of_int (priority_score profile));
          matchCount = int (length matched)
      in if matchCount > 1
         then fmul weighted (fadd (float_of_int 1) (fmul (float_of_int (matchCount - 1)) float_0_2))
         else weighted)"

definition normalize :: "(string \<times> rat) list \<Rightarrow> (string \<times> rat) list" where
  \<comment> \<open>the normalisation step of \<open>analyze_task\<close> on its own, for the proofs\<close>
  "normalize scores =
     (let max_score = (if scores \<noteq> [] then max_values (map snd scores) else 1)
      in if max_score > 0 then map (\<lambda>(k, v). (k, v / max_score)) scores else scores)"

section \<open>Ranking of suggestions\<close>

definition catalog_index :: "AgentSelector \<Rightarrow> string \<Rightarrow> nat" where
  \<comment> \<open>the position of an identifier in the catalog's declared order\<close>
  "catalog_index self a = length (takeWhile (\<lambda>k. k \<noteq> a) (map fst self))"

definition ranked_before :: "AgentSelector \<Rightarrow> string \<times> rat \<Rightarrow> string \<times> rat \<Rightarrow> bool" where
  \<comment> \<open>strictly greater confidence first; on a tie, the earlier catalog entry first\<close>
  "ranked_before self x y =
     (snd y < snd x \<or> (snd x = snd y \<and> catalog_index self (fst x) < catalog_index self (fst y)))"

section \<open>real\_backend\_fixed.py: sending and broadcasting\<close>

text \<open>
  A \<open>WebSocket\<close> object is modelled by its identity.  What the transport does with a
  \<open>send_text\<close> on a socket is a parameter: \<open>None\<close> when the text is accepted, \<open>Some e\<close>
  when \<open>send_text\<close> raises \<open>e\<close>.  The message dicts are the constructors of \<open>event\<close>, one
  for each value of the key \<open>type\<close>; timestamps and free-text fields are left out.
\<close>

type_synonym WebSocket = nat

type_synonym transport = "WebSocket \<Rightarrow> py_error option"

record response_data =
  response :: string
  agent :: string
  tools_used :: "string list"
  auto_selected :: bool
  error :: bool

datatype event =
    ConnectionEstablished
  | AgentSelection string rat
  | AgentStatus string string bool
  | AgentResponse response_data
  | AgentError string string
  | Heartbeat
  | SystemMetrics
  | Echo string
  | Ping
  | Pong

definition safe_send_to_client :: "transport \<Rightarrow> WebSocket \<Rightarrow> event \<Rightarrow> bool" where
  \<comment> \<open>\<open>try: await websocket.send_text(...); return True\<close> with its two handlers\<close>
  "safe_send_to_client send_text websocket message =
     (case send_text websocket of
        None \<Rightarrow> True
      | Some WebSocketDisconnect \<Rightarrow> False
      | Some e \<Rightarrow> False)"

definition list_remove :: "'a \<Rightarrow> 'a list \<Rightarrow> py_error + 'a list" where
  \<comment> \<open>\<open>xs.remove(x)\<close>: the first occurrence goes; ValueError when there is none\<close>
  "list_remove x xs = (if x \<in> set xs then Inr (remove1 x xs) else Inl ValueError)"

datatype hub_action =
    Delivered WebSocket event
  | SendFailed WebSocket event
  | Removed WebSocket

fun send_loop ::
  "transport \<Rightarrow> event \<Rightarrow> WebSocket list \<Rightarrow> WebSocket list \<times> hub_action list
     \<Rightarrow> WebSocket list \<times> hub_action list" where
  \<comment> \<open>the first loop of \<open>broadcast_to_clients\<close>, on the pair of the list \<open>disconnected\<close>
      and the actions performed so far\<close>
  "send_loop send_text message [] (disconnected, trace) = (disconnected, trace)"
| "send_loop send_text message (client # rest) (disconnected, trace) =
     (if safe_send_to_client send_text client message
      then send_loop send_text message rest (disconnected, trace @ [Delivered client message])
      else send_loop send_text message rest
             (disconnected @ [client], trace @ [SendFailed client message]))"

fun remove_loop ::
  "WebSocket list \<Rightarrow> WebSocket list \<times> hub_action list
     \<Rightarrow> py_error + (WebSocket list \<times> hub_action list)" where
  \<comment> \<open>the second loop, on the pair of \<open>connected_clients\<close> and the actions so far\<close>
  "remove_loop [] (connected_clients, trace) = Inr (connected_clients, trace)"
| "remove_loop (client # rest) (connected_clients, trace) =
     (if client \<in> set connected_clients
      then (case list_remove client connected_clients of
              Inl e \<Rightarrow> Inl e
            | Inr remaining \<Rightarrow> remove_loop rest (remaining, trace @ [Removed client]))
      else remove_loop rest (connected_clients, trace))"

definition broadcast_to_clients ::
  "transport \<Rightarrow> WebSocket list \<Rightarrow> event \<Rightarrow> py_error + (WebSocket list \<times> hub_action list)" where
  "broadcast_to_clients send_text connected_clients message =
     (if connected_clients = [] then Inr (connected_clients, [])
      else (case send_loop send_text message connected_clients ([], []) of
              (disconnected, trace) \<Rightarrow> remove_loop disconnected (connected_clients, trace)))"

section \<open>main.py: ConnectionManager and the read loop\<close>

definition connect :: "WebSocket list \<Rightarrow> WebSocket \<Rightarrow> WebSocket list" where
  \<comment> \<open>\<open>ConnectionManager.connect\<close>, after \<open>accept()\<close>\<close>
  "connect active_connections websocket = active_connections @ [websocket]"

definition disconnect :: "WebSocket list \<Rightarrow> WebSocket \<Rightarrow> py_error + WebSocket list" where
  \<comment> \<open>\<open>ConnectionManager.disconnect\<close>\<close>
  "disconnect active_connections websocket =
     (if websocket \<in> set active_connections
      then list_remove websocket active_connections
      else Inr active_connections)"

text \<open>
  A received text is given together with what \<open>json.loads\<close> does on it: it raises
  JSONDecodeError (\<open>NotJson\<close>) or returns a value (\<open>Json\<close>).  A \<open>JObject\<close> holds the
  items of the dict that \<open>json.loads\<close> returns, each key once.  The endpoint is named
  \<open>main_websocket_endpoint\<close>: \<open>websocket_endpoint\<close> is the one of real\_backend\_fixed.py.
\<close>

datatype json =
    JNull | JBool bool | JNumber int | JString string
  | JArray "json list" | JObject "(string \<times> json) list"

datatype frame = NotJson | Json json

datatype recv = Receive frame | ReceiveRaises py_error

fun json_get :: "json \<Rightarrow> string \<Rightarrow> py_error + json option" where
  \<comment> \<open>\<open>message_data.get(key)\<close>: only a dict has \<open>get\<close>\<close>
  "json_get (JObject items) key = Inr (map_of items key)"
| "json_get other key = Inl AttributeError"

fun read_loop ::
  "transport \<Rightarrow> WebSocket \<Rightarrow> recv list \<Rightarrow> event list
     \<Rightarrow> event list \<times> py_error option \<times> recv list" where
  \<comment> \<open>the \<open>while True\<close> loop of \<open>websocket_endpoint\<close> in main.py on the texts to come;
      the result is what was sent to the client, the exception that left the loop
      (\<open>None\<close>: the loop waits in \<open>receive_text\<close>), and what was never received\<close>
  "read_loop send_text websocket [] sent = (sent, None, [])"
| "read_loop send_text websocket (ReceiveRaises e # rest) sent = (sent, Some e, rest)"
| "read_loop send_text websocket (Receive NotJson # rest) sent =
     (sent, Some JSONDecodeError, rest)"
| "read_loop send_text websocket (Receive (Json message_data) # rest) sent =
     (case json_get message_data ''type'' of
        Inl e \<Rightarrow> (sent, Some e, rest)
      | Inr t \<Rightarrow>
          if t = Some (JString ''ping'')
          then (case send_text websocket of
                  Some e \<Rightarrow> (sent, Some e, rest)
                | None \<Rightarrow> read_loop send_text websocket rest (sent @ [Pong]))
          else read_loop send_text websocket rest sent)"

definition main_websocket_endpoint ::
  "transport \<Rightarrow> WebSocket list \<Rightarrow> WebSocket \<Rightarrow> recv list
     \<Rightarrow> py_error + (WebSocket list \<times> event list \<times> py_error option \<times> recv list)" where
  \<comment> \<open>\<open>websocket_endpoint\<close> of main.py: both handlers call \<open>manager.disconnect\<close>\<close>
  "main_websocket_endpoint send_text active_connections websocket incoming =
     (let connections = connect active_connections websocket
      in case send_text websocket of
           Some e \<Rightarrow>
             (case disconnect connections websocket of
                Inl e' \<Rightarrow> Inl e'
              | Inr remaining \<Rightarrow> Inr (remaining, [], Some e, incoming))
         | None \<Rightarrow>
             (case read_loop send_text websocket incoming [ConnectionEstablished] of
                (sent, None, unread) \<Rightarrow> Inr (connections, sent, None, unread)
              | (sent, Some e, unread) \<Rightarrow>
                  (case disconnect connections websocket of
                     Inl e' \<Rightarrow> Inl e'
                   | Inr remaining \<Rightarrow> Inr (remaining, sent, Some e, unread))))"

section \<open>real\_backend\_fixed.py: the chat request\<close>

definition AGENT_CONFIGS :: "(string \<times> string list) list" where
  \<comment> \<open>the keys of \<open>AGENT_CONFIGS\<close> with their \<open>tools\<close>\<close>
  "AGENT_CONFIGS =
     [(''manus'', [''General Knowledge'', ''Problem Solving'', ''Guidance'']),
      (''browser'', [''Browser Tool'', ''Web Scraping'', ''DOM Navigation'', ''API Integration'']),
      (''data'', [''Python Execute'', ''Data Visualization'', ''Statistical Analysis'',
                  ''Machine Learning'']),
      (''swe'', [''Code Editor'', ''Debugging'', ''Testing'', ''Version Control''])]"

definition config_tools :: "string \<Rightarrow> string list" where
  \<comment> \<open>\<open>AGENT_CONFIGS.get(agent_type, AGENT_CONFIGS["manus"])["tools"]\<close>\<close>
  "config_tools agent_type =
     (case map_of AGENT_CONFIGS agent_type of
        Some tools \<Rightarrow> tools
      | None \<Rightarrow> [''General Knowledge'', ''Problem Solving'', ''Guidance''])"

definition error_text :: "py_error \<Rightarrow> string" where
  \<comment> \<open>\<open>str(e)\<close>, as the name of the exception\<close>
  "error_text e =
     (case e of
        ValueError \<Rightarrow> ''ValueError'' | KeyError \<Rightarrow> ''KeyError''
      | AttributeError \<Rightarrow> ''AttributeError'' | JSONDecodeError \<Rightarrow> ''JSONDecodeError''
      | WebSocketDisconnect \<Rightarrow> ''WebSocketDisconnect'' | RuntimeError \<Rightarrow> ''RuntimeError'')"

text \<open>
  The call \<open>client.chat.completions.create\<close> is a parameter \<open>llm\<close>: given the user's text
  and the agent type it returns the completion or raises.
\<close>

type_synonym llm = "string \<Rightarrow> string \<Rightarrow> py_error + string"

definition get_llm_response :: "llm \<Rightarrow> string \<Rightarrow> string \<Rightarrow> response_data" where
  \<comment> \<open>the \<open>try\<close> body returns the first record, the handler \<open>except Exception\<close> the second\<close>
  "get_llm_response llm text agent_type =
     (case llm text agent_type of
        Inr llm_response \<Rightarrow>
          \<lparr>response = llm_response, agent = agent_type, tools_used = config_tools agent_type,
           auto_selected = False, error = False\<rparr>
      | Inl e \<Rightarrow>
          \<lparr>response = ''Sorry, I encountered an error: '' @ error_text e, agent = agent_type,
           tools_used = [], auto_selected = False, error = True\<rparr>)"

record ChatMessage =
  message :: string
  agent_type :: string
  auto_select :: bool

datatype http_result = Success | HTTPException nat string | Propagated py_error

text \<open>
  The state of a request: \<open>connected_clients\<close>, the events handed to
  \<open>broadcast_to_clients\<close> so far, and the actions these broadcasts performed.
\<close>

type_synonym chat_state = "WebSocket list \<times> event list \<times> hub_action list"

definition broadcast_step :: "transport \<Rightarrow> event \<Rightarrow> chat_state \<Rightarrow> py_error + chat_state" where
  \<comment> \<open>one \<open>await broadcast_to_clients(...)\<close>\<close>
  "broadcast_step send_text ev s =
     (case s of
        (clients, events, actions) \<Rightarrow>
          (case broadcast_to_clients send_text clients ev of
             Inl e \<Rightarrow> Inl e
           | Inr (remaining, performed) \<Rightarrow> Inr (remaining, events @ [ev], actions @ performed)))"

text \<open>
  The awaited execution call is a parameter \<open>execute\<close>, so that the handler of
  \<open>chat_endpoint\<close> has a path to it; \<open>chat_endpoint\<close> is the instance with
  \<open>get_llm_response\<close>, which returns a record on every path.  An exception inside the
  \<open>try\<close> block is \<open>Inl\<close> with the value of the variable \<open>agent_type\<close> and the state at
  the raise.
\<close>

definition chat_respond ::
  "transport \<Rightarrow> (string \<Rightarrow> string \<Rightarrow> py_error + response_data) \<Rightarrow> chat_state \<Rightarrow> string \<Rightarrow> string
     \<Rightarrow> bool \<Rightarrow> (py_error \<times> string \<times> chat_state) + chat_state" where
  \<comment> \<open>from \<open># Broadcast agent status\<close> to the end of the \<open>try\<close> block\<close>
  "chat_respond send_text execute s text chosen was_auto =
     (case broadcast_step send_text (AgentStatus chosen ''thinking'' was_auto) s of
        Inl e \<Rightarrow> Inl (e, chosen, s)
      | Inr s' \<Rightarrow>
          (case execute text chosen of
             Inl e \<Rightarrow> Inl (e, chosen, s')
           | Inr response_data \<Rightarrow>
               (case broadcast_step send_text
                       (AgentResponse (response_data\<lparr>auto_selected := was_auto\<rparr>)) s' of
                  Inl e \<Rightarrow> Inl (e, chosen, s')
                | Inr s'' \<Rightarrow> Inr s'')))"

definition chat_try ::
  "transport \<Rightarrow> (string \<Rightarrow> string \<Rightarrow> py_error + response_data) \<Rightarrow> chat_state \<Rightarrow> ChatMessage
     \<Rightarrow> (py_error \<times> string \<times> chat_state) + chat_state" where
  \<comment> \<open>the \<open>try\<close> block of \<open>chat_endpoint\<close>\<close>
  "chat_try send_text execute s chat_message =
     (if auto_select chat_message \<and> agent_type chat_message = ''auto''
      then (case select_best_agent AgentSelector_init (message chat_message) default_threshold of
              Inl e \<Rightarrow> Inl (e, agent_type chat_message, s)
            | Inr (selected_agent, confidence, scores) \<Rightarrow>
                (case broadcast_step send_text (AgentSelection selected_agent confidence) s of
                   Inl e \<Rightarrow> Inl (e, agent_type chat_message, s)
                 | Inr s' \<Rightarrow>
                     chat_respond send_text execute s' (message chat_message) selected_agent True))
      else chat_respond send_text execute s (message chat_message) (agent_type chat_message)
             False)"

definition chat_endpoint_with ::
  "transport \<Rightarrow> (string \<Rightarrow> string \<Rightarrow> py_error + response_data) \<Rightarrow> WebSocket list \<Rightarrow> ChatMessage
     \<Rightarrow> http_result \<times> chat_state" where
  "chat_endpoint_with send_text execute clients chat_message =
     (case chat_try send_text execute (clients, [], []) chat_message of
        Inr s \<Rightarrow> (Success, s)
      | Inl (e, chosen, s) \<Rightarrow>
          (case broadcast_step send_text (AgentError chosen (error_text e)) s of
             Inl e' \<Rightarrow> (Propagated e', s)
           | Inr s' \<Rightarrow> (HTTPException 500 (error_text e), s')))"

definition chat_endpoint ::
  "transport \<Rightarrow> llm \<Rightarrow> WebSocket list \<Rightarrow> ChatMessage \<Rightarrow> http_result \<times> chat_state" where
  "chat_endpoint send_text llm clients chat_message =
     chat_endpoint_with send_text (\<lambda>text chosen. Inr (get_llm_response llm text chosen))
       clients chat_message"

definition chat_events :: "http_result \<times> chat_state \<Rightarrow> event list" where
  \<comment> \<open>the events a request handed to \<open>broadcast_to_clients\<close>, in order\<close>
  "chat_events result = fst (snd (snd result))"

section \<open>real\_backend\_fixed.py: the WebSocket endpoint\<close>

datatype task_kind = HeartbeatTask | MetricsTask

text \<open>
  The hub: the list \<open>connected_clients\<close> and the timer tasks that were created and have
  neither been cancelled nor returned, each with the socket it was created for.
\<close>

record hub_state =
  hub_clients :: "WebSocket list"
  hub_tasks :: "(WebSocket \<times> task_kind) set"

datatype recv_text = ReceiveText string | ReceiveTimeout | ReceiveFails py_error

datatype endpoint_action =
    Accepted | Registered | SentTo event bool | TaskCreated task_kind | TaskCancelled task_kind
  | Unregistered

fun receive_loop ::
  "transport \<Rightarrow> WebSocket \<Rightarrow> recv_text list \<Rightarrow> endpoint_action list
     \<Rightarrow> endpoint_action list \<times> py_error option" where
  "receive_loop send_text websocket [] trace = (trace, None)"
| "receive_loop send_text websocket (ReceiveText data # rest) trace =
     receive_loop send_text websocket rest
       (trace @ [SentTo (Echo (''Received: '' @ data))
                   (safe_send_to_client send_text websocket (Echo (''Received: '' @ data)))])"
| "receive_loop send_text websocket (ReceiveTimeout # rest) trace =
     receive_loop send_text websocket rest
       (trace @ [SentTo Ping (safe_send_to_client send_text websocket Ping)])"
| "receive_loop send_text websocket (ReceiveFails e # rest) trace = (trace, Some e)"

definition endpoint_setup ::
  "transport \<Rightarrow> hub_state \<Rightarrow> WebSocket \<Rightarrow> hub_state \<times> endpoint_action list" where
  \<comment> \<open>\<open>websocket_endpoint\<close> up to the outer \<open>try\<close>\<close>
  "endpoint_setup send_text hub websocket =
     (hub\<lparr>hub_clients := hub_clients hub @ [websocket],
          hub_tasks := hub_tasks hub \<union> {(websocket, HeartbeatTask), (websocket, MetricsTask)}\<rparr>,
      [Accepted, Registered,
       SentTo ConnectionEstablished (safe_send_to_client send_text websocket ConnectionEstablished),
       TaskCreated HeartbeatTask, TaskCreated MetricsTask])"

definition teardown :: "hub_state \<Rightarrow> WebSocket \<Rightarrow> py_error + hub_state \<times> endpoint_action list" where
  \<comment> \<open>the \<open>finally\<close> block of \<open>websocket_endpoint\<close>\<close>
  "teardown hub websocket =
     (let hub = hub\<lparr>hub_tasks := hub_tasks hub - {(websocket, HeartbeatTask)}\<rparr>;
          hub = hub\<lparr>hub_tasks := hub_tasks hub - {(websocket, MetricsTask)}\<rparr>
      in if websocket \<in> set (hub_clients hub)
         then (case list_remove websocket (hub_clients hub) of
                 Inl e \<Rightarrow> Inl e
               | Inr remaining \<Rightarrow>
                   Inr (hub\<lparr>hub_clients := remaining\<rparr>,
                        [TaskCancelled HeartbeatTask, TaskCancelled MetricsTask, Unregistered]))
         else Inr (hub, [TaskCancelled HeartbeatTask, TaskCancelled MetricsTask]))"

definition websocket_endpoint ::
  "transport \<Rightarrow> hub_state \<Rightarrow> WebSocket \<Rightarrow> recv_text list
     \<Rightarrow> py_error + hub_state \<times> endpoint_action list \<times> py_error option" where
  "websocket_endpoint send_text hub websocket incoming =
     (case endpoint_setup send_text hub websocket of
        (hub, trace) \<Rightarrow>
          (case receive_loop send_text websocket incoming trace of
             (trace, None) \<Rightarrow> Inr (hub, trace, None)
           | (trace, Some e) \<Rightarrow>
               (case teardown hub websocket of
                  Inl e' \<Rightarrow> Inl e'
                | Inr (hub, cleanup) \<Rightarrow> Inr (hub, trace @ cleanup, Some e))))"

definition broadcast_hub ::
  "transport \<Rightarrow> hub_state \<Rightarrow> event \<Rightarrow> py_error + hub_state \<times> hub_action list" where
  \<comment> \<open>\<open>broadcast_to_clients\<close> on the hub: it writes \<open>connected_clients\<close> only\<close>
  "broadcast_hub send_text hub ev =
     (case broadcast_to_clients send_text (hub_clients hub) ev of
        Inl e \<Rightarrow> Inl e
      | Inr (remaining, performed) \<Rightarrow> Inr (hub\<lparr>hub_clients := remaining\<rparr>, performed))"

definition task_event :: "task_kind \<Rightarrow> event" where
  "task_event kind = (case kind of HeartbeatTask \<Rightarrow> Heartbeat | MetricsTask \<Rightarrow> SystemMetrics)"

definition timer_tick :: "transport \<Rightarrow> hub_state \<Rightarrow> WebSocket \<Rightarrow> task_kind \<Rightarrow> hub_state \<times> bool" where
  \<comment> \<open>one round of the loop of \<open>heartbeat_task\<close> or \<open>metrics_task\<close> after its sleep: the
      send, and \<open>break\<close> when it failed; the task reads neither \<open>connected_clients\<close> nor
      anything else of the hub\<close>
  "timer_tick send_text hub websocket kind =
     (let success = safe_send_to_client send_text websocket (task_event kind)
      in if \<not> success
         then (hub\<lparr>hub_tasks := hub_tasks hub - {(websocket, kind)}\<rparr>, success)
         else (hub, success))"

section \<open>The router: scoring\<close>

lemma keyword_loop_acc:
  "keyword_loop t kws (s, m) =
     (s + sum_list (map (\<lambda>kw. if kw = strip t then 2 else 1) (filter (\<lambda>kw. str_in kw t) kws)),
      m + int (length (filter (\<lambda>kw. str_in kw t) kws)))"
  by (induction kws arbitrary: s m) simp_all

lemma keyword_loop_double_acc:
  "keyword_loop_double t kws (s, m) =
     (foldl fadd s (map (\<lambda>kw. if kw = strip t then 2 else 1) (filter (\<lambda>kw. str_in kw t) kws)),
      m + int (length (filter (\<lambda>kw. str_in kw t) kws)))"
  by (induction kws arbitrary: s m) simp_all

lemma agent_score_double_spec: "agent_score_double (lower task) p = spec_raw_score task p"
  by (simp add: agent_score_double_def spec_raw_score_def keyword_loop_double_acc Let_def)

text \<open>
  The order of the two multiplications is part of the value: with three matches and weight
  3, the weight first and the bonus second gives 12.6, the other order 12.599999999999998.
\<close>

lemma weight_then_bonus_order:
  "fmul (fmul 3 (float_of_int 3)) (fadd (float_of_int 1) (fmul (float_of_int 2) float_0_2)) =
     7093169413108531 / 562949953421312 \<and>
   fmul (fmul 3 (fadd (float_of_int 1) (fmul (float_of_int 2) float_0_2))) (float_of_int 3) =
     3546584706554265 / 281474976710656"
  by code_simp

text \<open>
  Claim C1.  For every input text and every handler profile, the raw score that
  \<open>analyze_task\<close> stores for the profile (the dict \<open>scores\<close> before normalisation) is, in
  doubles, the sum over the profile's keywords that occur in the lower-cased input, in the
  profile's order, of 2 when the keyword is the whole trimmed lower-cased input and of 1
  otherwise; then multiplied by the priority weight; then, when more than one keyword
  matched, multiplied by \<open>1 + 0.2 * (matchCount - 1)\<close>.  At the input \<open>debug\<close> the
  stored score of \<open>swe\<close> is the double that Python prints as 10.799999999999999.
\<close>

theorem raw_scores_spec:
  "raw_scores_double self (lower task) = map (\<lambda>(n, p). (n, spec_raw_score task p)) self"
  by (simp add: raw_scores_double_def agent_score_double_spec)

theorem raw_scores_spec_witness:
  "map (\<lambda>(n, p). (n, spec_raw_score ''debug'' p)) AgentSelector_init =
     [(''manus'', 0), (''browser'', 0), (''data'', 0),
      (''swe'', 6079859496950169 / 562949953421312)]"
proof -
  have "raw_scores_double AgentSelector_init (lower ''debug'') =
     [(''manus'', 0), (''browser'', 0), (''data'', 0),
      (''swe'', 6079859496950169 / 562949953421312)]"
    by code_simp
  with raw_scores_spec [of AgentSelector_init "''debug''"] show ?thesis by simp
qed

section \<open>The router: choosing a handler\<close>

lemma max_by_value_Max:
  "snd (max_by_value best rest) = Max (snd ` set (best # rest))"
proof (induction rest arbitrary: best)
  case Nil
  show ?case by simp
next
  case (Cons kv rest)
  show ?case
  proof (cases "snd kv > snd best")
    case True
    then have "max (snd best) (snd kv) = snd kv" by simp
    with True Cons show ?thesis
      by (cases "rest = []") (simp_all add: max.assoc [symmetric] max.commute)
  next
    case False
    then have "max (snd best) (snd kv) = snd best" by simp
    with False Cons show ?thesis
      by (cases "rest = []") (simp_all add: max.assoc [symmetric])
  qed
qed

lemma analyze_task_Nil_iff: "analyze_task self task = [] \<longleftrightarrow> self = []"
  by (simp add: analyze_task_def raw_scores_def Let_def)

text \<open>
  Claim C2.  For every input text and every threshold, when the greatest confidence in the
  distribution returned by \<open>analyze_task\<close> is strictly below the threshold,
  \<open>select_best_agent\<close> returns the identifier \<open>manus\<close>, the greatest confidence as
  it was computed, and the distribution unchanged.
\<close>

theorem select_best_agent_below_threshold:
  assumes "self \<noteq> []"
    and "Max (snd ` set (analyze_task self task)) < threshold"
  shows "select_best_agent self task threshold =
           Inr (''manus'', Max (snd ` set (analyze_task self task)), analyze_task self task)"
proof -
  obtain kv rest where sc: "analyze_task self task = kv # rest"
    using assms(1) analyze_task_Nil_iff [of self task] by (cases "analyze_task self task") auto
  obtain a b where mb: "max_by_value kv rest = (a, b)" by (cases "max_by_value kv rest")
  have "b = Max (snd ` set (kv # rest))"
    using max_by_value_Max [of kv rest] mb by simp
  with assms(2) sc mb show ?thesis
    by (simp add: select_best_agent_def)
qed

theorem select_best_agent_below_threshold_witness:
  "AgentSelector_init \<noteq> [] \<and>
   Max (snd ` set (analyze_task AgentSelector_init ''debug'')) < 2 \<and>
   select_best_agent AgentSelector_init ''debug'' 2 =
     Inr (''manus'', 1, [(''manus'', 0), (''browser'', 0), (''data'', 0), (''swe'', 1)])"
proof -
  have e: "analyze_task AgentSelector_init ''debug'' =
             [(''manus'', 0), (''browser'', 0), (''data'', 0), (''swe'', 1)]"
    by code_simp
  have n: "AgentSelector_init \<noteq> []" by (simp add: AgentSelector_init_def)
  have m: "Max (snd ` set (analyze_task AgentSelector_init ''debug'')) < 2"
    by (simp add: e)
  show ?thesis
    using select_best_agent_below_threshold [OF n m] n m by (simp add: e)
qed

section \<open>The router: normalisation\<close>

lemma match_sum_ge_length:
  "(of_nat (length ks) :: rat) \<le> sum_list (map (\<lambda>kw. if kw = s then 2 else 1) ks)"
  by (induction ks) auto

lemma agent_score_eq:
  "agent_score t p =
     (let F = filter (\<lambda>kw. str_in kw t) (keyword_list p);
          S = sum_list (map (\<lambda>kw. if kw = strip t then 2 else 1) F) * of_int (priority_score p)
      in if 1 < length F then S * (1 + (of_nat (length F) - 1) * (2 / 10)) else S)"
  by (simp add: agent_score_def keyword_loop_acc Let_def)

lemma agent_score_nonneg:
  assumes "0 \<le> priority_score p"
  shows "0 \<le> agent_score t p"
proof -
  define F where "F = filter (\<lambda>kw. str_in kw t) (keyword_list p)"
  define S where "S = sum_list (map (\<lambda>kw. if kw = strip t then 2 else (1::rat)) F)"
  have S0: "0 \<le> S"
    using match_sum_ge_length [of F "strip t"] unfolding S_def
    by (meson of_nat_0_le_iff order_trans)
  have SP: "0 \<le> S * of_int (priority_score p)"
    using S0 assms by simp
  have B: "1 < length F \<Longrightarrow> (0::rat) \<le> 1 + (of_nat (length F) - 1) * (2 / 10)"
    by simp
  show ?thesis
    unfolding agent_score_eq Let_def F_def [symmetric] S_def [symmetric]
    using SP B by (simp add: mult_nonneg_nonneg)
qed

lemma agent_score_pos_iff:
  assumes "0 < priority_score p"
  shows "0 < agent_score t p \<longleftrightarrow> (\<exists>kw \<in> set (keyword_list p). str_in kw t)"
proof -
  define F where "F = filter (\<lambda>kw. str_in kw t) (keyword_list p)"
  define S where "S = sum_list (map (\<lambda>kw. if kw = strip t then 2 else (1::rat)) F)"
  have FE: "F \<noteq> [] \<longleftrightarrow> (\<exists>kw \<in> set (keyword_list p). str_in kw t)"
    unfolding F_def by (simp add: filter_empty_conv)
  have SL: "of_nat (length F) \<le> S"
    using match_sum_ge_length [of F "strip t"] unfolding S_def .
  have S0: "F = [] \<Longrightarrow> S = 0" unfolding S_def by simp
  have Sp: "F \<noteq> [] \<Longrightarrow> 0 < S"
  proof -
    assume "F \<noteq> []"
    then have "(0::rat) < of_nat (length F)" by simp
    with SL show "0 < S" by linarith
  qed
  have B: "1 < length F \<Longrightarrow> (0::rat) < 1 + (of_nat (length F) - 1) * (2 / 10)"
    by (simp add: add_pos_nonneg)
  have P: "(0::rat) < of_int (priority_score p)" using assms by simp
  have "0 < agent_score t p \<longleftrightarrow> F \<noteq> []"
  proof (cases "F = []")
    case True
    then show ?thesis
      unfolding agent_score_eq Let_def F_def [symmetric] S_def [symmetric]
      using S0 by simp
  next
    case False
    have "0 < S * of_int (priority_score p)" using Sp [OF False] P by simp
    then show ?thesis
      unfolding agent_score_eq Let_def F_def [symmetric] S_def [symmetric]
      using False B by (simp add: mult_pos_pos)
  qed
  with FE show ?thesis by simp
qed

lemma max_values_Max: "vs \<noteq> [] \<Longrightarrow> max_values vs = Max (set vs)"
proof (induction vs rule: max_values.induct)
  case 1
  then show ?case by simp
next
  case (2 v)
  then show ?case by simp
next
  case (3 v w vs)
  then show ?case by simp
qed

lemma max_values_mem: "vs \<noteq> [] \<Longrightarrow> max_values vs \<in> set vs"
  using max_values_Max [of vs] Max_in [of "set vs"] by simp

lemma max_values_ge: "v \<in> set vs \<Longrightarrow> v \<le> max_values vs"
  using max_values_Max [of vs] Max_ge [of "set vs" v] by (cases "vs = []") auto

lemma analyze_task_normalize: "analyze_task self task = normalize (raw_scores self (lower task))"
  by (simp add: analyze_task_def normalize_def Let_def)

lemma normalize_range:
  assumes nn: "\<forall>kv \<in> set scores. 0 \<le> snd kv"
    and kv: "kv \<in> set (normalize scores)"
  shows "0 \<le> snd kv \<and> snd kv \<le> 1"
proof (cases "scores = []")
  case True
  with kv show ?thesis by (simp add: normalize_def)
next
  case False
  define M where "M = max_values (map snd scores)"
  show ?thesis
  proof (cases "0 < M")
    case True
    then obtain k v where e: "(k, v) \<in> set scores" "kv = (k, v / M)"
      using kv False unfolding normalize_def M_def [symmetric] by (auto simp: Let_def)
    have "0 \<le> v" using nn e(1) by force
    moreover have "v \<le> M" unfolding M_def using e(1) by (intro max_values_ge) force
    ultimately show ?thesis using True e(2) by simp
  next
    case F2: False
    then have "kv \<in> set scores"
      using kv False unfolding normalize_def M_def [symmetric] by (simp add: Let_def)
    moreover have "snd kv \<le> M" unfolding M_def using calculation by (intro max_values_ge) force
    ultimately show ?thesis using nn F2 by force
  qed
qed

lemma normalize_has_one:
  assumes nn: "\<forall>kv \<in> set scores. 0 \<le> snd kv"
    and pos: "\<exists>kv \<in> set scores. 0 < snd kv"
  shows "\<exists>kv \<in> set (normalize scores). snd kv = 1"
proof -
  from pos have ne: "scores \<noteq> []" by auto
  define M where "M = max_values (map snd scores)"
  from pos obtain kv where "kv \<in> set scores" "0 < snd kv" by auto
  then have Mp: "0 < M"
    unfolding M_def using max_values_ge [of "snd kv" "map snd scores"] by force
  have "M \<in> set (map snd scores)" unfolding M_def using ne by (intro max_values_mem) simp
  then obtain k where "(k, M) \<in> set scores" by auto
  then have "(k, M / M) \<in> set (normalize scores)"
    using ne Mp unfolding normalize_def M_def [symmetric] by (force simp: Let_def)
  with Mp show ?thesis by force
qed

lemma normalize_all_zero:
  assumes "\<forall>kv \<in> set scores. snd kv = 0"
  shows "normalize scores = scores"
proof (cases "scores = []")
  case True
  then show ?thesis by (simp add: normalize_def)
next
  case False
  have "max_values (map snd scores) \<in> set (map snd scores)"
    using False by (intro max_values_mem) simp
  then have "max_values (map snd scores) = 0" using assms by auto
  then show ?thesis by (simp add: normalize_def)
qed

lemma raw_scores_nonneg:
  assumes "\<forall>(n, p) \<in> set self. 0 \<le> priority_score p"
  shows "\<forall>kv \<in> set (raw_scores self t). 0 \<le> snd kv"
proof
  fix kv assume "kv \<in> set (raw_scores self t)"
  then obtain n p where np: "(n, p) \<in> set self" and kv: "kv = (n, agent_score t p)"
    by (auto simp: raw_scores_def)
  from np assms have "0 \<le> priority_score p" by auto
  then show "0 \<le> snd kv" using kv agent_score_nonneg by simp
qed

lemma raw_scores_pos_iff:
  assumes "\<forall>(n, p) \<in> set self. 0 < priority_score p"
  shows "(\<exists>kv \<in> set (raw_scores self t). 0 < snd kv) \<longleftrightarrow>
         (\<exists>(n, p) \<in> set self. \<exists>kw \<in> set (keyword_list p). str_in kw t)"
proof
  assume "\<exists>kv \<in> set (raw_scores self t). 0 < snd kv"
  then obtain n p where np: "(n, p) \<in> set self" and pos: "0 < agent_score t p"
    by (auto simp: raw_scores_def)
  from np assms have "0 < priority_score p" by auto
  from agent_score_pos_iff [OF this, of t] pos
  have "\<exists>kw \<in> set (keyword_list p). str_in kw t" by simp
  with np show "\<exists>(n, p) \<in> set self. \<exists>kw \<in> set (keyword_list p). str_in kw t" by auto
next
  assume "\<exists>(n, p) \<in> set self. \<exists>kw \<in> set (keyword_list p). str_in kw t"
  then obtain n p where np: "(n, p) \<in> set self"
    and m: "\<exists>kw \<in> set (keyword_list p). str_in kw t" by auto
  from np assms have "0 < priority_score p" by auto
  from agent_score_pos_iff [OF this, of t] m have "0 < agent_score t p" by simp
  moreover have "(n, agent_score t p) \<in> set (raw_scores self t)"
    using np by (force simp: raw_scores_def)
  ultimately show "\<exists>kv \<in> set (raw_scores self t). 0 < snd kv" by force
qed

lemma AgentSelector_init_weights:
  "\<forall>(n, p) \<in> set AgentSelector_init. 0 < priority_score p"
  by (simp add: AgentSelector_init_def manus_capability_def browser_capability_def
      data_capability_def swe_capability_def)

text \<open>
  Claim C3.  For every input text, every confidence returned by \<open>analyze_task\<close> lies
  between 0 and 1; some raw score is positive exactly when some keyword of some profile
  occurs in the lower-cased input; and either some raw score is positive and some handler
  has confidence exactly 1, or all raw scores are 0 and every confidence is 0.
\<close>

theorem analyze_task_normalized:
  "(\<forall>(k, v) \<in> set (analyze_task AgentSelector_init task). 0 \<le> v \<and> v \<le> 1) \<and>
   ((\<exists>(k, r) \<in> set (raw_scores AgentSelector_init (lower task)). 0 < r) \<longleftrightarrow>
    (\<exists>(n, p) \<in> set AgentSelector_init. \<exists>kw \<in> set (keyword_list p). str_in kw (lower task))) \<and>
   ((\<exists>(k, r) \<in> set (raw_scores AgentSelector_init (lower task)). 0 < r) \<and>
    (\<exists>(k, v) \<in> set (analyze_task AgentSelector_init task). v = 1)
    \<or>
    (\<forall>(k, r) \<in> set (raw_scores AgentSelector_init (lower task)). r = 0) \<and>
    (\<forall>(k, v) \<in> set (analyze_task AgentSelector_init task). v = 0))"
proof -
  let ?raw = "raw_scores AgentSelector_init (lower task)"
  have w: "\<forall>(n, p) \<in> set AgentSelector_init. 0 \<le> priority_score p"
    using AgentSelector_init_weights by force
  have nn: "\<forall>kv \<in> set ?raw. 0 \<le> snd kv" by (rule raw_scores_nonneg [OF w])
  have range: "\<forall>(k, v) \<in> set (analyze_task AgentSelector_init task). 0 \<le> v \<and> v \<le> 1"
    using normalize_range [OF nn] unfolding analyze_task_normalize by force
  have iff: "(\<exists>(k, r) \<in> set ?raw. 0 < r) \<longleftrightarrow>
    (\<exists>(n, p) \<in> set AgentSelector_init. \<exists>kw \<in> set (keyword_list p). str_in kw (lower task))"
    using raw_scores_pos_iff [OF AgentSelector_init_weights, of "lower task"] by force
  have alt: "(\<exists>(k, r) \<in> set ?raw. 0 < r) \<and>
      (\<exists>(k, v) \<in> set (analyze_task AgentSelector_init task). v = 1)
    \<or> (\<forall>(k, r) \<in> set ?raw. r = 0) \<and>
      (\<forall>(k, v) \<in> set (analyze_task AgentSelector_init task). v = 0)"
  proof (cases "\<exists>kv \<in> set ?raw. 0 < snd kv")
    case True
    from normalize_has_one [OF nn True] True show ?thesis
      unfolding analyze_task_normalize by force
  next
    case False
    with nn have z: "\<forall>kv \<in> set ?raw. snd kv = 0" by force
    from normalize_all_zero [OF z] z show ?thesis
      unfolding analyze_task_normalize by force
  qed
  from range iff alt show ?thesis by blast
qed

theorem analyze_task_normalized_witness:
  "(\<exists>(k, r) \<in> set (raw_scores AgentSelector_init (lower ''Debug my Python code'')). 0 < r) \<and>
   (\<exists>(k, v) \<in> set (analyze_task AgentSelector_init ''Debug my Python code''). v = 1) \<and>
   raw_scores AgentSelector_init (lower ''Debug my Python code'') =
     [(''manus'', 0), (''browser'', 0), (''data'', 0), (''swe'', 96 / 5)] \<and>
   analyze_task AgentSelector_init ''Debug my Python code'' =
     [(''manus'', 0), (''browser'', 0), (''data'', 0), (''swe'', 1)]"
proof -
  have e: "analyze_task AgentSelector_init ''Debug my Python code'' =
             [(''manus'', 0), (''browser'', 0), (''data'', 0), (''swe'', 1)]"
    by code_simp
  have r: "raw_scores AgentSelector_init (lower ''Debug my Python code'') =
             [(''manus'', 0), (''browser'', 0), (''data'', 0), (''swe'', 96 / 5)]"
    by code_simp
  show ?thesis
    using analyze_task_normalized [of "''Debug my Python code''"] by (simp add: e r)
qed

lemma no_match_raw_zero:
  assumes "\<forall>(n, p) \<in> set self. \<forall>kw \<in> set (keyword_list p). \<not> str_in kw t"
  shows "raw_scores self t = map (\<lambda>(n, p). (n, 0)) self"
proof -
  have "agent_score t p = 0" if "(n, p) \<in> set self" for n p
  proof -
    have "filter (\<lambda>kw. str_in kw t) (keyword_list p) = []"
      using assms that by (auto simp: filter_empty_conv)
    then show ?thesis by (simp add: agent_score_eq)
  qed
  then show ?thesis by (auto simp: raw_scores_def)
qed

text \<open>
  Claim C10.  For every input text in which no keyword of any profile occurs in the
  lower-cased input, \<open>analyze_task\<close> maps every handler to 0, and
  \<open>select_best_agent\<close> returns \<open>manus\<close> with confidence 0 (at every threshold, so
  also at the default one).
\<close>

theorem no_keyword_routes_to_manus:
  assumes "\<forall>(n, p) \<in> set AgentSelector_init. \<forall>kw \<in> set (keyword_list p). \<not> str_in kw (lower task)"
  shows "analyze_task AgentSelector_init task =
           [(''manus'', 0), (''browser'', 0), (''data'', 0), (''swe'', 0)] \<and>
         select_best_agent AgentSelector_init task threshold =
           Inr (''manus'', 0, [(''manus'', 0), (''browser'', 0), (''data'', 0), (''swe'', 0)])"
proof -
  have raw: "raw_scores AgentSelector_init (lower task) =
               [(''manus'', 0), (''browser'', 0), (''data'', 0), (''swe'', 0)]"
    using no_match_raw_zero [OF assms] by (simp add: AgentSelector_init_def)
  have a: "analyze_task AgentSelector_init task =
             [(''manus'', 0), (''browser'', 0), (''data'', 0), (''swe'', 0)]"
    unfolding analyze_task_normalize raw by (simp add: normalize_def)
  show ?thesis by (simp add: select_best_agent_def a)
qed

theorem no_keyword_routes_to_manus_witness:
  "analyze_task AgentSelector_init [] =
     [(''manus'', 0), (''browser'', 0), (''data'', 0), (''swe'', 0)] \<and>
   select_best_agent AgentSelector_init [] default_threshold =
     Inr (''manus'', 0, [(''manus'', 0), (''browser'', 0), (''data'', 0), (''swe'', 0)])"
proof -
  have h: "\<forall>(n, p) \<in> set AgentSelector_init. \<forall>kw \<in> set (keyword_list p). \<not> str_in kw (lower [])"
    by (simp add: AgentSelector_init_def manus_capability_def browser_capability_def
        data_capability_def swe_capability_def lower_def)
  show ?thesis
    using no_keyword_routes_to_manus [OF h, of default_threshold] by simp
qed

section \<open>The router: suggestions\<close>

lemma index_sorted:
  "distinct ks \<Longrightarrow>
   sorted_wrt (\<lambda>a b. length (takeWhile (\<lambda>k. k \<noteq> a) ks) < length (takeWhile (\<lambda>k. k \<noteq> b) ks)) ks"
proof (induction ks)
  case Nil
  show ?case by simp
next
  case (Cons x ks)
  then have d: "distinct ks" and nx: "x \<notin> set ks" by simp_all
  have "sorted_wrt (\<lambda>a b. length (takeWhile (\<lambda>k. k \<noteq> a) (x # ks))
                           < length (takeWhile (\<lambda>k. k \<noteq> b) (x # ks))) ks"
    using Cons.IH [OF d]
  proof (rule sorted_wrt_mono_rel [rotated])
    fix a b assume "a \<in> set ks" "b \<in> set ks"
      and "length (takeWhile (\<lambda>k. k \<noteq> a) ks) < length (takeWhile (\<lambda>k. k \<noteq> b) ks)"
    with nx show "length (takeWhile (\<lambda>k. k \<noteq> a) (x # ks))
                  < length (takeWhile (\<lambda>k. k \<noteq> b) (x # ks))"
      by auto
  qed
  moreover have "\<forall>b \<in> set ks. length (takeWhile (\<lambda>k. k \<noteq> x) (x # ks))
                   < length (takeWhile (\<lambda>k. k \<noteq> b) (x # ks))"
    using nx by auto
  ultimately show ?case by simp
qed

lemma insort_ranked:
  assumes "sorted_wrt (ranked_before self) ys"
    and "\<forall>y \<in> set ys. catalog_index self (fst x) < catalog_index self (fst y)"
  shows "sorted_wrt (ranked_before self) (insort_key (\<lambda>x. - snd x) x ys)"
  using assms
proof (induction ys)
  case Nil
  show ?case by simp
next
  case (Cons y ys)
  show ?case
  proof (cases "snd y \<le> snd x")
    case True
    have "ranked_before self x z" if "z \<in> set (y # ys)" for z
    proof -
      have "snd z \<le> snd y"
        using that Cons.prems(1) by (auto simp: ranked_before_def)
      with True have "snd z \<le> snd x" by simp
      moreover have "catalog_index self (fst x) < catalog_index self (fst z)"
        using that Cons.prems(2) by auto
      ultimately show ?thesis by (auto simp: ranked_before_def)
    qed
    with True Cons.prems(1) show ?thesis by simp
  next
    case False
    then have yx: "ranked_before self y x" by (simp add: ranked_before_def)
    have "sorted_wrt (ranked_before self) (insort_key (\<lambda>x. - snd x) x ys)"
      using Cons.IH Cons.prems by simp
    moreover have "\<forall>z \<in> set (insort_key (\<lambda>x. - snd x) x ys). ranked_before self y z"
      using yx Cons.prems(1) by (simp add: set_insort_key)
    ultimately show ?thesis using False by simp
  qed
qed

lemma sort_ranked:
  assumes "sorted_wrt (\<lambda>x y. catalog_index self (fst x) < catalog_index self (fst y)) xs"
  shows "sorted_wrt (ranked_before self) (sorted_reverse xs)"
  using assms unfolding sorted_reverse_def
proof (induction xs)
  case Nil
  show ?case by simp
next
  case (Cons x xs)
  then show ?case by (simp add: insort_ranked)
qed

lemma analyze_task_keys: "map fst (analyze_task self task) = map fst self"
  by (simp add: analyze_task_def raw_scores_def Let_def case_prod_unfold comp_def)

lemma analyze_task_ranked:
  assumes "distinct (map fst self)"
  shows "sorted_wrt (ranked_before self) (sorted_reverse (analyze_task self task))"
proof (rule sort_ranked)
  have "sorted_wrt (\<lambda>a b. catalog_index self a < catalog_index self b)
          (map fst (analyze_task self task))"
    unfolding analyze_task_keys catalog_index_def by (rule index_sorted [OF assms])
  then show "sorted_wrt (\<lambda>x y. catalog_index self (fst x) < catalog_index self (fst y))
          (analyze_task self task)"
    by (simp add: sorted_wrt_map)
qed

lemma suggestions_loop_ok:
  assumes "fst ` set xs \<subseteq> fst ` set self"
  shows "\<exists>ys. suggestions_loop self xs = Inr ys \<and>
           map (\<lambda>(a, c, d). (a, c)) ys = xs \<and>
           (\<forall>(a, c, d) \<in> set ys. \<exists>agent. map_of self a = Some agent \<and> d = description agent)"
  using assms
proof (induction xs)
  case Nil
  show ?case by simp
next
  case (Cons x xs)
  obtain a c where x: "x = (a, c)" by (cases x)
  from Cons.prems x have "a \<in> fst ` set self" by simp
  then obtain agent where ag: "map_of self a = Some agent"
    by (metis weak_map_of_SomeI map_of_eq_None_iff not_None_eq)
  from Cons.IH Cons.prems obtain ys where ys: "suggestions_loop self xs = Inr ys"
    "map (\<lambda>(a, c, d). (a, c)) ys = xs"
    "\<forall>(a, c, d) \<in> set ys. \<exists>agent. map_of self a = Some agent \<and> d = description agent"
    by auto
  show ?case using x ag ys by simp
qed

text \<open>
  Claim C4.  For every input text and every \<open>n \<ge> 0\<close>, \<open>get_agent_suggestions\<close>
  returns a list of (identifier, confidence, description) triples, of length at most
  \<open>n\<close> (exactly the smaller of \<open>n\<close> and the catalog's size), in which a triple
  stands before another only if its confidence is greater, or equal with the earlier
  catalog position; each pair (identifier, confidence) is an entry of the distribution of
  \<open>analyze_task\<close> and each description is the catalog's description of the identifier.
  The catalog is a dict, so its keys are distinct.
\<close>

theorem get_agent_suggestions_ranked:
  assumes "distinct (map fst self)" and "0 \<le> top_n"
  shows "\<exists>suggestions. get_agent_suggestions self task top_n = Inr suggestions \<and>
           length suggestions = min (nat top_n) (length self) \<and>
           length suggestions \<le> nat top_n \<and>
           sorted_wrt (\<lambda>(a, c, d) (a', c', d'). ranked_before self (a, c) (a', c')) suggestions \<and>
           (\<forall>(a, c, d) \<in> set suggestions.
              (a, c) \<in> set (analyze_task self task) \<and>
              (\<exists>agent. map_of self a = Some agent \<and> d = description agent))"
proof -
  let ?top = "slice_to top_n (sorted_reverse (analyze_task self task))"
  have top: "?top = take (nat top_n) (sorted_reverse (analyze_task self task))"
    using assms(2) by (simp add: slice_to_def)
  have "set ?top \<subseteq> set (sorted_reverse (analyze_task self task))"
    unfolding top by (rule set_take_subset)
  then have sub: "set ?top \<subseteq> set (analyze_task self task)"
    by (simp add: sorted_reverse_def)
  have "fst ` set (analyze_task self task) = fst ` set self"
    using analyze_task_keys [of self task] by (metis set_map)
  with sub have keys: "fst ` set ?top \<subseteq> fst ` set self" by blast
  from suggestions_loop_ok [OF keys] obtain ys where ys:
    "suggestions_loop self ?top = Inr ys"
    "map (\<lambda>(a, c, d). (a, c)) ys = ?top"
    "\<forall>(a, c, d) \<in> set ys. \<exists>agent. map_of self a = Some agent \<and> d = description agent"
    by blast
  have r: "get_agent_suggestions self task top_n = Inr ys"
    using ys(1) by (simp add: get_agent_suggestions_def)
  have "length (analyze_task self task) = length self"
    using analyze_task_keys [of self task] by (metis length_map)
  then have "length ?top = min (nat top_n) (length self)"
    unfolding top by (simp add: sorted_reverse_def min.commute)
  moreover have "length ys = length ?top"
    using arg_cong [OF ys(2), of length] by simp
  ultimately have len: "length ys = min (nat top_n) (length self)" by simp
  have "sorted_wrt (ranked_before self) ?top"
    unfolding top using analyze_task_ranked [OF assms(1)] by (rule sorted_wrt_take)
  then have "sorted_wrt (ranked_before self) (map (\<lambda>(a, c, d). (a, c)) ys)"
    using ys(2) by simp
  then have srt: "sorted_wrt (\<lambda>(a, c, d) (a', c', d'). ranked_before self (a, c) (a', c')) ys"
    by (simp add: sorted_wrt_map case_prod_unfold)
  have mem: "(a, c) \<in> set (analyze_task self task)" if "(a, c, d) \<in> set ys" for a c d
  proof -
    from that have "(a, c) \<in> set (map (\<lambda>(a, c, d). (a, c)) ys)" by force
    with ys(2) sub show ?thesis by auto
  qed
  from r len srt mem ys(3) show ?thesis by fastforce
qed

theorem get_agent_suggestions_ranked_witness:
  "distinct (map fst AgentSelector_init) \<and> (0::int) \<le> 3 \<and>
   (\<exists>suggestions. get_agent_suggestions AgentSelector_init ''what'' 3 = Inr suggestions \<and>
      length suggestions = min (nat 3) (length AgentSelector_init) \<and>
      length suggestions \<le> nat 3 \<and>
      sorted_wrt (\<lambda>(a, c, d) (a', c', d'). ranked_before AgentSelector_init (a, c) (a', c'))
        suggestions \<and>
      (\<forall>(a, c, d) \<in> set suggestions.
         (a, c) \<in> set (analyze_task AgentSelector_init ''what'') \<and>
         (\<exists>agent. map_of AgentSelector_init a = Some agent \<and> d = description agent))) \<and>
   get_agent_suggestions AgentSelector_init ''what'' 3 =
     Inr [(''manus'', 1, ''General-purpose AI agent for basic tasks and explanations''),
          (''browser'', 0, ''Web automation and scraping specialist''),
          (''data'', 0, ''Data analysis and visualization expert'')]"
proof -
  have d: "distinct (map fst AgentSelector_init)"
    by (simp add: AgentSelector_init_def)
  have n: "(0::int) \<le> 3" by simp
  have e: "get_agent_suggestions AgentSelector_init ''what'' 3 =
     Inr [(''manus'', 1, ''General-purpose AI agent for basic tasks and explanations''),
          (''browser'', 0, ''Web automation and scraping specialist''),
          (''data'', 0, ''Data analysis and visualization expert'')]"
    by code_simp
  from get_agent_suggestions_ranked [OF d n, of "''what''"] d n e show ?thesis
    by blast
qed

section \<open>The hub: broadcast\<close>

lemma safe_send_iff: "safe_send_to_client st c m \<longleftrightarrow> st c = None"
  by (simp add: safe_send_to_client_def split: option.splits py_error.splits)

lemma send_loop_acc:
  "send_loop st m cs (d, t) =
     (d @ filter (\<lambda>c. st c \<noteq> None) cs,
      t @ map (\<lambda>c. if st c = None then Delivered c m else SendFailed c m) cs)"
  by (induction cs arbitrary: d t) (simp_all add: safe_send_iff)

lemma remove_loop_filter:
  "\<forall>p \<in> set ps. \<not> F p \<Longrightarrow>
   remove_loop (filter F xs) (ps @ xs, t) =
     Inr (ps @ filter (\<lambda>x. \<not> F x) xs, t @ map Removed (filter F xs))"
proof (induction xs arbitrary: ps t)
  case Nil
  show ?case by simp
next
  case (Cons x xs)
  show ?case
  proof (cases "F x")
    case True
    with Cons.prems have "x \<notin> set ps" by auto
    then have "remove1 x (ps @ x # xs) = ps @ xs" by (simp add: remove1_append)
    with True Cons.IH [OF Cons.prems] show ?thesis by (simp add: list_remove_def)
  next
    case False
    with Cons.prems have "\<forall>p \<in> set (ps @ [x]). \<not> F p" by simp
    from Cons.IH [OF this, of t] False show ?thesis by simp
  qed
qed

lemma broadcast_to_clients_eq:
  "broadcast_to_clients send_text clients ev =
     Inr (filter (\<lambda>c. send_text c = None) clients,
          map (\<lambda>c. if send_text c = None then Delivered c ev else SendFailed c ev) clients
          @ map Removed (filter (\<lambda>c. send_text c \<noteq> None) clients))"
proof (cases "clients = []")
  case True
  then show ?thesis by (simp add: broadcast_to_clients_def)
next
  case False
  have "remove_loop (filter (\<lambda>c. send_text c \<noteq> None) clients) ([] @ clients, t) =
          Inr ([] @ filter (\<lambda>c. \<not> send_text c \<noteq> None) clients,
               t @ map Removed (filter (\<lambda>c. send_text c \<noteq> None) clients))" for t
    by (rule remove_loop_filter) simp
  with False show ?thesis
    by (simp add: broadcast_to_clients_def send_loop_acc)
qed



section \<open>The hub: removing a session and sending to it\<close>

lemma disconnect_total: "\<exists>remaining. disconnect active_connections websocket = Inr remaining"
  by (simp add: disconnect_def list_remove_def)

lemma connect_distinct:
  "distinct active_connections \<Longrightarrow> websocket \<notin> set active_connections \<Longrightarrow>
   distinct (connect active_connections websocket)"
  by (simp add: connect_def)

lemma disconnect_distinct:
  "distinct active_connections \<Longrightarrow> disconnect active_connections websocket = Inr remaining \<Longrightarrow>
   distinct remaining"
  by (auto simp: disconnect_def list_remove_def split: if_splits)

text \<open>
  Claim C6, as the code has it.  \<open>disconnect\<close> never raises; on a registry in which no socket
  is listed twice (\<open>connect\<close> appends each accepted socket once) it leaves the socket out,
  and a second \<open>disconnect\<close> of the same socket, like any \<open>disconnect\<close> of a socket that is not
  listed, changes nothing.  \<open>safe_send_to_client\<close> never raises and returns \<open>False\<close> whenever
  the send of the transport raises, as on a closed socket.  It does not read the registry:
  it returns \<open>True\<close> exactly when the send of the transport succeeds, also for a socket that
  has been removed.
\<close>

theorem disconnect_idempotent:
  assumes "distinct active_connections"
  shows "(\<exists>remaining. disconnect active_connections websocket = Inr remaining \<and>
            websocket \<notin> set remaining \<and>
            disconnect remaining websocket = Inr remaining) \<and>
         (websocket \<notin> set active_connections \<longrightarrow>
            disconnect active_connections websocket = Inr active_connections) \<and>
         (send_text websocket \<noteq> None \<longrightarrow> safe_send_to_client send_text websocket ev = False) \<and>
         (safe_send_to_client send_text websocket ev \<longleftrightarrow> send_text websocket = None)"
  using assms by (auto simp: disconnect_def list_remove_def safe_send_iff)

theorem disconnect_idempotent_witness:
  "distinct [4, 7, 9 :: nat] \<and> disconnect [4, 7, 9] 7 = Inr [4, 9] \<and>
   disconnect [4, 9] 7 = Inr [4, 9] \<and>
   safe_send_to_client (\<lambda>w. if w = 7 then Some RuntimeError else None) 7 Heartbeat = False"
  using disconnect_idempotent
    [of "[4, 7, 9]" 7 "\<lambda>w. if w = 7 then Some RuntimeError else None" Heartbeat]
  by (simp add: disconnect_def list_remove_def)

text \<open>
  A socket that was removed while its transport is open: the send returns \<open>True\<close>.
\<close>

theorem removed_session_send_counterexample:
  "disconnect [7] 7 = Inr [] \<and> safe_send_to_client (\<lambda>w. None) 7 Heartbeat = True"
  by (simp add: disconnect_def list_remove_def safe_send_to_client_def)

section \<open>The hub: the read loop of main.py\<close>

lemma read_loop_main_unrecognized:
  "map_of items ''type'' \<noteq> Some (JString ''ping'') \<Longrightarrow>
   read_loop send_text websocket (Receive (Json (JObject items)) # rest) sent =
     read_loop send_text websocket rest sent"
  by simp

lemma json_get_not_object:
  "(\<forall>items. message_data \<noteq> JObject items) \<Longrightarrow> json_get message_data key = Inl AttributeError"
  by (cases message_data) simp_all

text \<open>
  Claim C7, as the code has it.  On a session whose greeting was sent, a message that
  \<open>json.loads\<close> reads as an object whose \<open>type\<close> is not \<open>ping\<close> changes nothing: the
  endpoint goes on with the next message as if the message had not come.  A text that
  \<open>json.loads\<close> rejects, and a JSON value that is not an object, raise inside the loop:
  the handler takes the socket out of \<open>active_connections\<close> and the endpoint returns, the
  later messages unread; nothing is sent to any socket.
\<close>

theorem unrecognized_message_ignored:
  assumes "send_text websocket = None" and "websocket \<notin> set active_connections"
  shows "(map_of items ''type'' \<noteq> Some (JString ''ping'') \<longrightarrow>
            main_websocket_endpoint send_text active_connections websocket
              (Receive (Json (JObject items)) # rest) =
            main_websocket_endpoint send_text active_connections websocket rest) \<and>
         main_websocket_endpoint send_text active_connections websocket
           (Receive NotJson # rest) =
           Inr (active_connections, [ConnectionEstablished], Some JSONDecodeError, rest) \<and>
         ((\<forall>fields. message_data \<noteq> JObject fields) \<longrightarrow>
            main_websocket_endpoint send_text active_connections websocket
              (Receive (Json message_data) # rest) =
            Inr (active_connections, [ConnectionEstablished], Some AttributeError, rest))"
proof -
  have d: "disconnect (connect active_connections websocket) websocket = Inr active_connections"
    using assms(2) by (simp add: disconnect_def connect_def list_remove_def remove1_append)
  have 1: "map_of items ''type'' \<noteq> Some (JString ''ping'') \<longrightarrow>
            main_websocket_endpoint send_text active_connections websocket
              (Receive (Json (JObject items)) # rest) =
            main_websocket_endpoint send_text active_connections websocket rest"
    using assms(1) by (simp add: main_websocket_endpoint_def)
  have 2: "main_websocket_endpoint send_text active_connections websocket
           (Receive NotJson # rest) =
           Inr (active_connections, [ConnectionEstablished], Some JSONDecodeError, rest)"
    using assms(1) d by (simp add: main_websocket_endpoint_def Let_def)
  have 3: "(\<forall>fields. message_data \<noteq> JObject fields) \<longrightarrow>
            main_websocket_endpoint send_text active_connections websocket
              (Receive (Json message_data) # rest) =
            Inr (active_connections, [ConnectionEstablished], Some AttributeError, rest)"
    using assms(1) d by (simp add: main_websocket_endpoint_def Let_def json_get_not_object)
  from 1 2 3 show ?thesis by blast
qed

theorem unrecognized_message_ignored_witness:
  "(\<lambda>w. None :: py_error option) (1::nat) = None \<and> (1::nat) \<notin> set [] \<and>
   map_of [(''type'', JString ''chat'')] ''type'' \<noteq> Some (JString ''ping'') \<and>
   main_websocket_endpoint (\<lambda>w. None) [] 1
     [Receive (Json (JObject [(''type'', JString ''chat'')])),
      Receive (Json (JObject [(''type'', JString ''ping'')]))] =
     Inr ([1], [ConnectionEstablished, Pong], None, []) \<and>
   main_websocket_endpoint (\<lambda>w. None) [] 1
     [Receive (Json (JArray [])), Receive (Json (JObject [(''type'', JString ''ping'')]))] =
     Inr ([], [ConnectionEstablished], Some AttributeError,
          [Receive (Json (JObject [(''type'', JString ''ping'')]))])"
  using unrecognized_message_ignored
    [of "\<lambda>w. None" 1 "[]" "[(''type'', JString ''chat'')]"
        "[Receive (Json (JObject [(''type'', JString ''ping'')]))]" "JArray []"]
  by (simp add: main_websocket_endpoint_def connect_def)

text \<open>
  A text that is not JSON, followed by a ping: the session is removed and the ping is never
  read.
\<close>

theorem malformed_payload_counterexample:
  "main_websocket_endpoint (\<lambda>w. None) [] 1
     [Receive NotJson, Receive (Json (JObject [(''type'', JString ''ping'')]))] =
     Inr ([], [ConnectionEstablished], Some JSONDecodeError,
          [Receive (Json (JObject [(''type'', JString ''ping'')]))])"
  by (simp add: main_websocket_endpoint_def connect_def disconnect_def list_remove_def)

section \<open>The hub: the events of a chat request\<close>

lemma broadcast_step_events:
  "\<exists>remaining performed.
     broadcast_step send_text ev (clients, events, actions) =
       Inr (remaining, events @ [ev], actions @ performed)"
  by (simp add: broadcast_step_def broadcast_to_clients_eq)

lemma select_best_agent_returns:
  "\<exists>selected confidence scores.
     select_best_agent AgentSelector_init task threshold = Inr (selected, confidence, scores)"
proof -
  have "analyze_task AgentSelector_init task \<noteq> []"
    by (simp add: analyze_task_Nil_iff AgentSelector_init_def)
  then obtain kv rest where "analyze_task AgentSelector_init task = kv # rest"
    by (cases "analyze_task AgentSelector_init task") auto
  then show ?thesis
    by (cases "max_by_value kv rest") (simp add: select_best_agent_def Let_def)
qed

lemma chat_respond_events:
  "\<exists>remaining actions'.
     (case chat_respond send_text execute (clients, events, actions) text chosen was_auto of
        Inr s \<Rightarrow> (\<exists>response_data. execute text chosen = Inr response_data \<and>
                   s = (remaining, events @ [AgentStatus chosen ''thinking'' was_auto,
                          AgentResponse (response_data\<lparr>auto_selected := was_auto\<rparr>)], actions'))
      | Inl (e, a, s) \<Rightarrow> execute text chosen = Inl e \<and> a = chosen \<and>
                   s = (remaining, events @ [AgentStatus chosen ''thinking'' was_auto], actions'))"
proof -
  obtain r1 p1 where 1: "broadcast_step send_text (AgentStatus chosen ''thinking'' was_auto)
      (clients, events, actions) =
        Inr (r1, events @ [AgentStatus chosen ''thinking'' was_auto], actions @ p1)"
    using broadcast_step_events by blast
  show ?thesis
  proof (cases "execute text chosen")
    case (Inl e)
    with 1 show ?thesis by (simp add: chat_respond_def)
  next
    case (Inr response_data)
    obtain r2 p2 where 2: "broadcast_step send_text
        (AgentResponse (response_data\<lparr>auto_selected := was_auto\<rparr>))
        (r1, events @ [AgentStatus chosen ''thinking'' was_auto], actions @ p1) =
        Inr (r2, (events @ [AgentStatus chosen ''thinking'' was_auto]) @
                   [AgentResponse (response_data\<lparr>auto_selected := was_auto\<rparr>)],
             (actions @ p1) @ p2)"
      using broadcast_step_events by blast
    with 1 Inr show ?thesis by (simp add: chat_respond_def)
  qed
qed

lemma chat_endpoint_with_auto:
  assumes "auto_select chat_message" and "agent_type chat_message = ''auto''"
    and "select_best_agent AgentSelector_init (message chat_message) default_threshold =
           Inr (selected, confidence, scores)"
  shows "chat_events (chat_endpoint_with send_text execute clients chat_message) =
           [AgentSelection selected confidence, AgentStatus selected ''thinking'' True,
            (case execute (message chat_message) selected of
               Inr response_data \<Rightarrow> AgentResponse (response_data\<lparr>auto_selected := True\<rparr>)
             | Inl e \<Rightarrow> AgentError selected (error_text e))]"
proof -
  obtain r1 p1 where 1: "broadcast_step send_text (AgentSelection selected confidence)
      (clients, [], []) = Inr (r1, [] @ [AgentSelection selected confidence], [] @ p1)"
    using broadcast_step_events by blast
  have t: "chat_try send_text execute (clients, [], []) chat_message =
             chat_respond send_text execute (r1, [AgentSelection selected confidence], p1)
               (message chat_message) selected True"
    using assms 1 by (simp add: chat_try_def)
  obtain r2 p2 where 2:
    "(case chat_respond send_text execute (r1, [AgentSelection selected confidence], p1)
             (message chat_message) selected True of
        Inr s \<Rightarrow> (\<exists>response_data. execute (message chat_message) selected = Inr response_data \<and>
                   s = (r2, [AgentSelection selected confidence] @
                          [AgentStatus selected ''thinking'' True,
                           AgentResponse (response_data\<lparr>auto_selected := True\<rparr>)], p2))
      | Inl (e, a, s) \<Rightarrow> execute (message chat_message) selected = Inl e \<and> a = selected \<and>
                   s = (r2, [AgentSelection selected confidence] @
                          [AgentStatus selected ''thinking'' True], p2))"
    using chat_respond_events by blast
  show ?thesis
  proof (cases "chat_respond send_text execute (r1, [AgentSelection selected confidence], p1)
             (message chat_message) selected True")
    case (Inr s)
    with 2 t show ?thesis
      by (auto simp: chat_endpoint_with_def chat_events_def)
  next
    case (Inl x)
    obtain e a s where x: "x = (e, a, s)" by (cases x)
    with Inl 2 have 3: "execute (message chat_message) selected = Inl e" "a = selected"
      "s = (r2, [AgentSelection selected confidence, AgentStatus selected ''thinking'' True], p2)"
      by simp_all
    obtain r3 p3 where 4: "broadcast_step send_text (AgentError selected (error_text e))
        (r2, [AgentSelection selected confidence, AgentStatus selected ''thinking'' True], p2) =
        Inr (r3, [AgentSelection selected confidence, AgentStatus selected ''thinking'' True] @
                   [AgentError selected (error_text e)], p2 @ p3)"
      using broadcast_step_events by blast
    from Inl x 3 4 t show ?thesis
      by (simp add: chat_endpoint_with_def chat_events_def)
  qed
qed

text \<open>
  Claim C8, as the code has it.  An auto-routed request broadcasts exactly three events, in
  the order \<open>agent_selection\<close>, \<open>agent_status\<close> with status \<open>thinking\<close>, and then one of
  \<open>agent_response\<close> and \<open>agent_error\<close>; the last is \<open>agent_error\<close>, naming the selected
  handler, exactly when the awaited execution call raises.  With \<open>get_llm_response\<close> as
  that call it never raises: when the call of the language model fails, the third event is
  an \<open>agent_response\<close> whose payload has \<open>error\<close> set and names the selected handler.
\<close>

theorem chat_endpoint_event_order:
  assumes "auto_select chat_message" and "agent_type chat_message = ''auto''"
  shows "\<exists>selected confidence scores.
           select_best_agent AgentSelector_init (message chat_message) default_threshold =
             Inr (selected, confidence, scores) \<and>
           chat_events (chat_endpoint_with send_text execute clients chat_message) =
             [AgentSelection selected confidence, AgentStatus selected ''thinking'' True,
              (case execute (message chat_message) selected of
                 Inr response_data \<Rightarrow> AgentResponse (response_data\<lparr>auto_selected := True\<rparr>)
               | Inl e \<Rightarrow> AgentError selected (error_text e))] \<and>
           chat_events (chat_endpoint send_text llm clients chat_message) =
             [AgentSelection selected confidence, AgentStatus selected ''thinking'' True,
              AgentResponse
                (case llm (message chat_message) selected of
                   Inr llm_response \<Rightarrow>
                     \<lparr>response = llm_response, agent = selected,
                      tools_used = config_tools selected, auto_selected = True, error = False\<rparr>
                 | Inl e \<Rightarrow>
                     \<lparr>response = ''Sorry, I encountered an error: '' @ error_text e,
                      agent = selected, tools_used = [], auto_selected = True, error = True\<rparr>)]"
proof -
  obtain selected confidence scores where
    s: "select_best_agent AgentSelector_init (message chat_message) default_threshold =
          Inr (selected, confidence, scores)"
    using select_best_agent_returns by blast
  have "chat_events (chat_endpoint send_text llm clients chat_message) =
          [AgentSelection selected confidence, AgentStatus selected ''thinking'' True,
           AgentResponse
             ((get_llm_response llm (message chat_message) selected)\<lparr>auto_selected := True\<rparr>)]"
    using chat_endpoint_with_auto [OF assms s] by (simp add: chat_endpoint_def)
  then have "chat_events (chat_endpoint send_text llm clients chat_message) =
             [AgentSelection selected confidence, AgentStatus selected ''thinking'' True,
              AgentResponse
                (case llm (message chat_message) selected of
                   Inr llm_response \<Rightarrow>
                     \<lparr>response = llm_response, agent = selected,
                      tools_used = config_tools selected, auto_selected = True, error = False\<rparr>
                 | Inl e \<Rightarrow>
                     \<lparr>response = ''Sorry, I encountered an error: '' @ error_text e,
                      agent = selected, tools_used = [], auto_selected = True, error = True\<rparr>)]"
    by (simp add: get_llm_response_def split: sum.splits)
  with s chat_endpoint_with_auto [OF assms s] show ?thesis by blast
qed

theorem chat_endpoint_event_order_witness:
  "auto_select \<lparr>message = ''debug'', agent_type = ''auto'', auto_select = True\<rparr> \<and>
   agent_type \<lparr>message = ''debug'', agent_type = ''auto'', auto_select = True\<rparr> = ''auto'' \<and>
   chat_events (chat_endpoint_with (\<lambda>w. None) (\<lambda>text chosen. Inl RuntimeError) [1]
      \<lparr>message = ''debug'', agent_type = ''auto'', auto_select = True\<rparr>) =
     [AgentSelection ''swe'' 1, AgentStatus ''swe'' ''thinking'' True,
      AgentError ''swe'' ''RuntimeError'']"
proof -
  have e: "select_best_agent AgentSelector_init ''debug'' default_threshold =
             Inr (''swe'', 1, [(''manus'', 0), (''browser'', 0), (''data'', 0), (''swe'', 1)])"
    by code_simp
  show ?thesis
    using chat_endpoint_event_order
      [of "\<lparr>message = ''debug'', agent_type = ''auto'', auto_select = True\<rparr>"
          "\<lambda>w. None" "\<lambda>text chosen. Inl RuntimeError" "[1]" "\<lambda>text chosen. Inl RuntimeError"]
    by (auto simp: e error_text_def)
qed

text \<open>
  The call of the language model raises: the request succeeds and the third event is an
  \<open>agent_response\<close>; no \<open>agent_error\<close> is broadcast.
\<close>

theorem llm_failure_counterexample:
  "chat_endpoint (\<lambda>w. None) (\<lambda>text chosen. Inl RuntimeError) [1]
      \<lparr>message = ''debug'', agent_type = ''auto'', auto_select = True\<rparr> =
     (Success, [1],
      [AgentSelection ''swe'' 1, AgentStatus ''swe'' ''thinking'' True,
       AgentResponse
         \<lparr>response = ''Sorry, I encountered an error: RuntimeError'', agent = ''swe'',
          tools_used = [], auto_selected = True, error = True\<rparr>],
      [Delivered 1 (AgentSelection ''swe'' 1),
       Delivered 1 (AgentStatus ''swe'' ''thinking'' True),
       Delivered 1
         (AgentResponse
            \<lparr>response = ''Sorry, I encountered an error: RuntimeError'', agent = ''swe'',
             tools_used = [], auto_selected = True, error = True\<rparr>)])"
  by code_simp

section \<open>The hub: timers and teardown\<close>

lemma receive_loop_trace:
  "\<exists>sent. fst (receive_loop st ws incoming trace) = trace @ sent \<and>
          (\<forall>a \<in> set sent. \<exists>ev ok. a = SentTo ev ok)"
proof (induction st ws incoming trace rule: receive_loop.induct)
  case (2 st ws data rest trace)
  then obtain sent where
    "fst (receive_loop st ws rest
        (trace @ [SentTo (Echo (''Received: '' @ data))
                   (safe_send_to_client st ws (Echo (''Received: '' @ data)))])) =
       (trace @ [SentTo (Echo (''Received: '' @ data))
                   (safe_send_to_client st ws (Echo (''Received: '' @ data)))]) @ sent"
    "\<forall>a \<in> set sent. \<exists>ev ok. a = SentTo ev ok" by blast
  then show ?case
    by (intro exI [of _ "SentTo (Echo (''Received: '' @ data))
                   (safe_send_to_client st ws (Echo (''Received: '' @ data))) # sent"]) simp
next
  case (3 st ws rest trace)
  then obtain sent where
    "fst (receive_loop st ws rest (trace @ [SentTo Ping (safe_send_to_client st ws Ping)])) =
       (trace @ [SentTo Ping (safe_send_to_client st ws Ping)]) @ sent"
    "\<forall>a \<in> set sent. \<exists>ev ok. a = SentTo ev ok" by blast
  then show ?case
    by (intro exI [of _ "SentTo Ping (safe_send_to_client st ws Ping) # sent"]) simp
qed simp_all

lemma receive_loop_ends:
  "ReceiveFails e \<in> set incoming \<Longrightarrow> \<exists>e'. snd (receive_loop st ws incoming trace) = Some e'"
  by (induction st ws incoming trace rule: receive_loop.induct) auto

lemma receive_loop_goes_on:
  "(\<forall>e. ReceiveFails e \<notin> set incoming) \<Longrightarrow> snd (receive_loop st ws incoming trace) = None"
  by (induction st ws incoming trace rule: receive_loop.induct) auto

lemma teardown_result:
  "teardown hub ws =
     Inr (hub\<lparr>hub_tasks := hub_tasks hub - {(ws, HeartbeatTask), (ws, MetricsTask)},
              hub_clients := remove1 ws (hub_clients hub)\<rparr>,
          [TaskCancelled HeartbeatTask, TaskCancelled MetricsTask] @
          (if ws \<in> set (hub_clients hub) then [Unregistered] else []))"
proof -
  have "hub_tasks hub - {(ws, HeartbeatTask)} - {(ws, MetricsTask)} =
          hub_tasks hub - {(ws, HeartbeatTask), (ws, MetricsTask)}"
    by blast
  then show ?thesis
    by (simp add: teardown_def list_remove_def Let_def remove1_idem)
qed
lemma receive_loop_result:
  "\<exists>sent. receive_loop st ws incoming trace =
            (trace @ sent, snd (receive_loop st ws incoming trace)) \<and>
          (\<forall>a \<in> set sent. \<exists>ev ok. a = SentTo ev ok)"
  using receive_loop_trace [of st ws incoming trace]
  by (cases "receive_loop st ws incoming trace") auto

text \<open>
  Claim C9, as the code has it.  When the read loop of a session ends, by a disconnect or
  by any other exception of the receive, the cleanup of \<open>websocket_endpoint\<close> cancels the
  heartbeat task and the metrics task and only then takes the socket out of
  \<open>connected_clients\<close>; afterwards neither task of the socket is left.  In whatever state
  the cleanup runs, it cancels both tasks, and takes the socket out when it is still there.
\<close>

theorem teardown_cancels_before_removal:
  assumes "websocket \<notin> set (hub_clients hub)" and "ReceiveFails e \<in> set incoming"
  shows "(\<exists>sent e'.
            websocket_endpoint send_text hub websocket incoming =
              Inr (hub\<lparr>hub_tasks :=
                         hub_tasks hub - {(websocket, HeartbeatTask), (websocket, MetricsTask)}\<rparr>,
                   [Accepted, Registered,
                    SentTo ConnectionEstablished
                      (safe_send_to_client send_text websocket ConnectionEstablished),
                    TaskCreated HeartbeatTask, TaskCreated MetricsTask] @ sent @
                   [TaskCancelled HeartbeatTask, TaskCancelled MetricsTask, Unregistered],
                   Some e') \<and>
            (\<forall>a \<in> set sent. \<exists>ev ok. a = SentTo ev ok)) \<and>
         (\<exists>hub'. teardown hub websocket =
                   Inr (hub', [TaskCancelled HeartbeatTask, TaskCancelled MetricsTask]) \<and>
                 (websocket, HeartbeatTask) \<notin> hub_tasks hub' \<and>
                 (websocket, MetricsTask) \<notin> hub_tasks hub')"
proof -
  define trace where "trace = [Accepted, Registered,
      SentTo ConnectionEstablished (safe_send_to_client send_text websocket ConnectionEstablished),
      TaskCreated HeartbeatTask, TaskCreated MetricsTask]"
  define hub1 where "hub1 = hub\<lparr>hub_clients := hub_clients hub @ [websocket],
      hub_tasks := hub_tasks hub \<union> {(websocket, HeartbeatTask), (websocket, MetricsTask)}\<rparr>"
  have init: "endpoint_setup send_text hub websocket = (hub1, trace)"
    by (simp add: endpoint_setup_def hub1_def trace_def)
  obtain sent where sent: "receive_loop send_text websocket incoming trace =
      (trace @ sent, snd (receive_loop send_text websocket incoming trace))"
    "\<forall>a \<in> set sent. \<exists>ev ok. a = SentTo ev ok"
    using receive_loop_result by blast
  obtain e' where e': "snd (receive_loop send_text websocket incoming trace) = Some e'"
    using receive_loop_ends [OF assms(2)] by blast
  have tasks: "hub_tasks hub \<union> {(websocket, HeartbeatTask), (websocket, MetricsTask)} -
      {(websocket, HeartbeatTask), (websocket, MetricsTask)} =
      hub_tasks hub - {(websocket, HeartbeatTask), (websocket, MetricsTask)}"
    by blast
  have clients: "remove1 websocket (hub_clients hub @ [websocket]) = hub_clients hub"
    using assms(1) by (simp add: remove1_append)
  have "teardown hub1 websocket =
      Inr (hub\<lparr>hub_tasks :=
                 hub_tasks hub - {(websocket, HeartbeatTask), (websocket, MetricsTask)}\<rparr>,
           [TaskCancelled HeartbeatTask, TaskCancelled MetricsTask, Unregistered])"
    by (simp add: teardown_result hub1_def tasks clients)
  with init sent e' have "websocket_endpoint send_text hub websocket incoming =
      Inr (hub\<lparr>hub_tasks :=
                 hub_tasks hub - {(websocket, HeartbeatTask), (websocket, MetricsTask)}\<rparr>,
           trace @ sent @ [TaskCancelled HeartbeatTask, TaskCancelled MetricsTask, Unregistered],
           Some e')"
    by (simp add: websocket_endpoint_def)
  with sent(2) have first: "\<exists>sent e'.
            websocket_endpoint send_text hub websocket incoming =
              Inr (hub\<lparr>hub_tasks :=
                         hub_tasks hub - {(websocket, HeartbeatTask), (websocket, MetricsTask)}\<rparr>,
                   [Accepted, Registered,
                    SentTo ConnectionEstablished
                      (safe_send_to_client send_text websocket ConnectionEstablished),
                    TaskCreated HeartbeatTask, TaskCreated MetricsTask] @ sent @
                   [TaskCancelled HeartbeatTask, TaskCancelled MetricsTask, Unregistered],
                   Some e') \<and>
            (\<forall>a \<in> set sent. \<exists>ev ok. a = SentTo ev ok)"
    unfolding trace_def by blast
  have second: "\<exists>hub'. teardown hub websocket =
                   Inr (hub', [TaskCancelled HeartbeatTask, TaskCancelled MetricsTask]) \<and>
                 (websocket, HeartbeatTask) \<notin> hub_tasks hub' \<and>
                 (websocket, MetricsTask) \<notin> hub_tasks hub'"
    using assms(1) by (simp add: teardown_result)
  from first second show ?thesis by blast
qed

theorem teardown_cancels_before_removal_witness:
  "2 \<notin> set (hub_clients \<lparr>hub_clients = [1], hub_tasks = {(1, HeartbeatTask), (1, MetricsTask)}\<rparr>) \<and>
   ReceiveFails WebSocketDisconnect \<in>
     set [ReceiveText ''hi'', ReceiveTimeout, ReceiveFails WebSocketDisconnect] \<and>
   websocket_endpoint (\<lambda>w. None)
     \<lparr>hub_clients = [1], hub_tasks = {(1, HeartbeatTask), (1, MetricsTask)}\<rparr> 2
     [ReceiveText ''hi'', ReceiveTimeout, ReceiveFails WebSocketDisconnect] =
     Inr (\<lparr>hub_clients = [1], hub_tasks = {(1, HeartbeatTask), (1, MetricsTask)}\<rparr>,
          [Accepted, Registered, SentTo ConnectionEstablished True,
           TaskCreated HeartbeatTask, TaskCreated MetricsTask,
           SentTo (Echo ''Received: hi'') True, SentTo Ping True,
           TaskCancelled HeartbeatTask, TaskCancelled MetricsTask, Unregistered],
          Some WebSocketDisconnect)"
proof -
  have s: "insert (2::nat, HeartbeatTask)
               (insert (2, MetricsTask) {(1, HeartbeatTask), (1, MetricsTask)}) -
             {(2, HeartbeatTask), (2, MetricsTask)} = {(1, HeartbeatTask), (1, MetricsTask)}"
    by auto
  have r: "receive_loop (\<lambda>w. None) 2
             [ReceiveText ''hi'', ReceiveTimeout, ReceiveFails WebSocketDisconnect] trace =
           (trace @ [SentTo (Echo ''Received: hi'') True, SentTo Ping True],
            Some WebSocketDisconnect)" for trace
    by (simp add: safe_send_to_client_def)
  have c: "websocket_endpoint (\<lambda>w. None)
     \<lparr>hub_clients = [1], hub_tasks = {(1, HeartbeatTask), (1, MetricsTask)}\<rparr> 2
     [ReceiveText ''hi'', ReceiveTimeout, ReceiveFails WebSocketDisconnect] =
     Inr (\<lparr>hub_clients = [1], hub_tasks = {(1, HeartbeatTask), (1, MetricsTask)}\<rparr>,
          [Accepted, Registered, SentTo ConnectionEstablished True,
           TaskCreated HeartbeatTask, TaskCreated MetricsTask,
           SentTo (Echo ''Received: hi'') True, SentTo Ping True,
           TaskCancelled HeartbeatTask, TaskCancelled MetricsTask, Unregistered],
          Some WebSocketDisconnect)"
    by (simp add: websocket_endpoint_def endpoint_setup_def r teardown_result s
        safe_send_to_client_def)
  show ?thesis
    using teardown_cancels_before_removal
      [of 2 "\<lparr>hub_clients = [1], hub_tasks = {(1, HeartbeatTask), (1, MetricsTask)}\<rparr>"
          WebSocketDisconnect
          "[ReceiveText ''hi'', ReceiveTimeout, ReceiveFails WebSocketDisconnect]" "\<lambda>w. None"]
      c
    by simp
qed

text \<open>
  A session whose send fails during a broadcast is taken out of \<open>connected_clients\<close> with
  both of its timer tasks still there; the heartbeat task sends again at its next round, with
  success when that send does not fail.
\<close>

theorem broadcast_removal_leaves_timers_counterexample:
  "broadcast_hub (\<lambda>w. Some RuntimeError)
     (fst (endpoint_setup (\<lambda>w. None) \<lparr>hub_clients = [], hub_tasks = {}\<rparr> 1)) Heartbeat =
     Inr (\<lparr>hub_clients = [], hub_tasks = {(1, HeartbeatTask), (1, MetricsTask)}\<rparr>,
          [SendFailed 1 Heartbeat, Removed 1]) \<and>
   timer_tick (\<lambda>w. None)
     \<lparr>hub_clients = [], hub_tasks = {(1, HeartbeatTask), (1, MetricsTask)}\<rparr> 1 HeartbeatTask =
     (\<lparr>hub_clients = [], hub_tasks = {(1, HeartbeatTask), (1, MetricsTask)}\<rparr>, True)"
  by (simp add: broadcast_hub_def endpoint_setup_def broadcast_to_clients_eq timer_tick_def
      safe_send_to_client_def)

lemma timer_tick_stops_iff:
  "timer_tick send_text hub websocket kind =
     (if send_text websocket = None then (hub, True)
      else (hub\<lparr>hub_tasks := hub_tasks hub - {(websocket, kind)}\<rparr>, False))"
  by (simp add: timer_tick_def safe_send_iff Let_def)

end
